theory Spec2Isabelle
  imports Main "HOL-Library.Word" "HOL-Library.Sublist" "HOL-Library.AList"
    "HOL-Library.Char_ord" "HOL-Library.List_Lexorder"
begin

unbundle bit_operations_syntax

section \<open>Functions of the Go library\<close>

subsection \<open>Package strings\<close>

text \<open>\<open>strings.Contains\<close>: the substring occurs at some position.\<close>

fun strings_Contains :: "string \<Rightarrow> string \<Rightarrow> bool" where
  "strings_Contains [] substr = (substr = [])"
| "strings_Contains (c # s) substr = (prefix substr (c # s) \<or> strings_Contains s substr)"

text \<open>\<open>strings.Split(s, "/")\<close>.\<close>

fun split_slash :: "string \<Rightarrow> string list" where
  "split_slash [] = [[]]"
| "split_slash (c # s) =
     (if c = CHR ''/'' then [] # split_slash s
      else (case split_slash s of e # es \<Rightarrow> (c # e) # es | [] \<Rightarrow> [[c]]))"

text \<open>\<open>strings.Join(elems, "/")\<close>.\<close>

fun join_slash :: "string list \<Rightarrow> string" where
  "join_slash [] = []"
| "join_slash [e] = e"
| "join_slash (e # es) = e @ ''/'' @ join_slash es"

subsection \<open>Package path/filepath, Unix build\<close>

text \<open>
  \<open>filepath.Clean\<close>: empty and \<open>.\<close> elements vanish, an inner \<open>..\<close> removes the element
  before it, a \<open>..\<close> at the root vanishes, and a leading \<open>..\<close> of a relative path stays.
  \<open>out\<close> is the output written so far, as a list of elements.
\<close>

fun clean_elems :: "bool \<Rightarrow> string list \<Rightarrow> string list \<Rightarrow> string list" where
  "clean_elems rooted out [] = out"
| "clean_elems rooted out (e # es) =
     (if e = [] \<or> e = ''.'' then clean_elems rooted out es
      else if e = ''..'' then
        (if out \<noteq> [] \<and> last out \<noteq> ''..'' then clean_elems rooted (butlast out) es
         else if rooted then clean_elems rooted out es
         else clean_elems rooted (out @ [''..'']) es)
      else clean_elems rooted (out @ [e]) es)"

definition filepath_Clean :: "string \<Rightarrow> string" where
  "filepath_Clean path =
     (if path = [] then ''.''
      else let rooted = (hd path = CHR ''/'');
               out = clean_elems rooted [] (split_slash path)
           in if rooted then ''/'' @ join_slash out
              else if out = [] then ''.'' else join_slash out)"

text \<open>\<open>filepath.Join\<close>: leading empty elements are dropped, the rest joined and cleaned.\<close>

definition filepath_Join :: "string list \<Rightarrow> string" where
  "filepath_Join elem =
     (case dropWhile (\<lambda>e. e = []) elem of [] \<Rightarrow> [] | es \<Rightarrow> filepath_Clean (join_slash es))"

text \<open>\<open>filepath.Base\<close>: the last element, after trailing slashes are stripped.\<close>

definition filepath_Base :: "string \<Rightarrow> string" where
  "filepath_Base path =
     (if path = [] then ''.''
      else let p = rev (dropWhile (\<lambda>c. c = CHR ''/'') (rev path))
           in if p = [] then ''/'' else rev (takeWhile (\<lambda>c. c \<noteq> CHR ''/'') (rev p)))"

text \<open>\<open>filepath.Dir\<close>: everything up to the last slash, cleaned.\<close>

definition filepath_Dir :: "string \<Rightarrow> string" where
  "filepath_Dir path = filepath_Clean (rev (dropWhile (\<lambda>c. c \<noteq> CHR ''/'') (rev path)))"

subsection \<open>Package crypto/sha256 and encoding/hex\<close>

text \<open>SHA-256 as in FIPS 180-4, on 32-bit words; a string is the sequence of its bytes.\<close>

type_synonym uint8 = "8 word"

type_synonym uint32 = "32 word"

text \<open>A 32-bit word written as eight hexadecimal digits, most significant first.\<close>

definition hex_value :: "char \<Rightarrow> nat" where
  "hex_value c = length (takeWhile (\<lambda>d. d \<noteq> c) ''0123456789abcdef'')"

definition hex32 :: "string \<Rightarrow> uint32" where
  "hex32 s = foldl (\<lambda>acc c. push_bit 4 acc OR word_of_nat (hex_value c)) 0 s"

text \<open>The round constants and the initial hash value.\<close>

definition K256 :: "uint32 list" where
  "K256 = map hex32
    [''428a2f98'', ''71374491'', ''b5c0fbcf'', ''e9b5dba5'', ''3956c25b'', ''59f111f1'',
     ''923f82a4'', ''ab1c5ed5'', ''d807aa98'', ''12835b01'', ''243185be'', ''550c7dc3'',
     ''72be5d74'', ''80deb1fe'', ''9bdc06a7'', ''c19bf174'', ''e49b69c1'', ''efbe4786'',
     ''0fc19dc6'', ''240ca1cc'', ''2de92c6f'', ''4a7484aa'', ''5cb0a9dc'', ''76f988da'',
     ''983e5152'', ''a831c66d'', ''b00327c8'', ''bf597fc7'', ''c6e00bf3'', ''d5a79147'',
     ''06ca6351'', ''14292967'', ''27b70a85'', ''2e1b2138'', ''4d2c6dfc'', ''53380d13'',
     ''650a7354'', ''766a0abb'', ''81c2c92e'', ''92722c85'', ''a2bfe8a1'', ''a81a664b'',
     ''c24b8b70'', ''c76c51a3'', ''d192e819'', ''d6990624'', ''f40e3585'', ''106aa070'',
     ''19a4c116'', ''1e376c08'', ''2748774c'', ''34b0bcb5'', ''391c0cb3'', ''4ed8aa4a'',
     ''5b9cca4f'', ''682e6ff3'', ''748f82ee'', ''78a5636f'', ''84c87814'', ''8cc70208'',
     ''90befffa'', ''a4506ceb'', ''bef9a3f7'', ''c67178f2'']"

definition init256 :: "uint32 list" where
  "init256 = map hex32
    [''6a09e667'', ''bb67ae85'', ''3c6ef372'', ''a54ff53a'',
     ''510e527f'', ''9b05688c'', ''1f83d9ab'', ''5be0cd19'']"

definition rotr :: "nat \<Rightarrow> uint32 \<Rightarrow> uint32" where
  "rotr n x = (drop_bit n x) OR (push_bit (32 - n) x)"

definition Ch :: "uint32 \<Rightarrow> uint32 \<Rightarrow> uint32 \<Rightarrow> uint32" where
  "Ch x y z = (x AND y) XOR (NOT x AND z)"

definition Maj :: "uint32 \<Rightarrow> uint32 \<Rightarrow> uint32 \<Rightarrow> uint32" where
  "Maj x y z = (x AND y) XOR (x AND z) XOR (y AND z)"

definition Sigma0 :: "uint32 \<Rightarrow> uint32" where
  "Sigma0 x = rotr 2 x XOR rotr 13 x XOR rotr 22 x"

definition Sigma1 :: "uint32 \<Rightarrow> uint32" where
  "Sigma1 x = rotr 6 x XOR rotr 11 x XOR rotr 25 x"

definition sigma0 :: "uint32 \<Rightarrow> uint32" where
  "sigma0 x = rotr 7 x XOR rotr 18 x XOR drop_bit 3 x"

definition sigma1 :: "uint32 \<Rightarrow> uint32" where
  "sigma1 x = rotr 17 x XOR rotr 19 x XOR drop_bit 10 x"

text \<open>Padding: the byte \<open>0x80\<close>, zeros up to 56 modulo 64, the bit length in 8 bytes.\<close>

definition be_uint64 :: "64 word \<Rightarrow> uint8 list" where
  "be_uint64 v = map (\<lambda>i. ucast (drop_bit (8 * i) v)) [7, 6, 5, 4, 3, 2, 1, 0]"

definition be_uint32 :: "uint32 \<Rightarrow> uint8 list" where
  "be_uint32 v = map (\<lambda>i. ucast (drop_bit (8 * i) v)) [3, 2, 1, 0]"

definition pad256 :: "uint8 list \<Rightarrow> uint8 list" where
  "pad256 msg =
     msg @ [0x80] @ replicate ((119 - length msg mod 64) mod 64) 0
         @ be_uint64 (push_bit 3 (word_of_nat (length msg)))"

fun be_words :: "uint8 list \<Rightarrow> uint32 list" where
  "be_words (b0 # b1 # b2 # b3 # bs) =
     (push_bit 24 (ucast b0) OR push_bit 16 (ucast b1) OR push_bit 8 (ucast b2) OR ucast b3)
       # be_words bs"
| "be_words bs = []"

text \<open>
  The 64 rounds on one block. \<open>w\<close> holds the sixteen schedule words from the current
  round on, so its head is the word of this round.
\<close>

fun next_word :: "uint32 list \<Rightarrow> uint32" where
  "next_word [w0, w1, w2, w3, w4, w5, w6, w7, w8, w9, w10, w11, w12, w13, w14, w15] =
     sigma1 w14 + w9 + sigma0 w1 + w0"
| "next_word ws = 0"

fun round256 :: "uint32 \<Rightarrow> uint32 \<Rightarrow> uint32 list \<Rightarrow> uint32 list" where
  "round256 k w [a, b, c, d, e, f, g, h] =
     (let t1 = h + Sigma1 e + Ch e f g + k + w;
          t2 = Sigma0 a + Maj a b c
      in [t1 + t2, a, b, c, d + t1, e, f, g])"
| "round256 k w s = s"

fun rounds256 :: "uint32 list \<Rightarrow> uint32 list \<Rightarrow> uint32 list \<Rightarrow> uint32 list" where
  "rounds256 [] w s = s"
| "rounds256 (k # ks) w s = rounds256 ks (tl w @ [next_word w]) (round256 k (hd w) s)"

definition block256 :: "uint32 list \<Rightarrow> uint32 list \<Rightarrow> uint32 list" where
  "block256 h w = map2 (+) h (rounds256 K256 w h)"

fun blocks256 :: "uint32 list \<Rightarrow> uint32 list \<Rightarrow> uint32 list" where
  "blocks256 h ws = (if length ws < 16 then h
                     else blocks256 (block256 h (take 16 ws)) (drop 16 ws))"

text \<open>\<open>sha256.Sum256\<close>: the 32 bytes of the digest.\<close>

definition sha256_Sum256 :: "string \<Rightarrow> uint8 list" where
  "sha256_Sum256 data =
     concat (map be_uint32 (blocks256 init256 (be_words (pad256 (map of_char data)))))"

text \<open>\<open>hex.EncodeToString\<close>: two lower-case digits for each byte.\<close>

definition hex_digit :: "uint8 \<Rightarrow> char" where
  "hex_digit n = ''0123456789abcdef'' ! unat n"

definition hex_EncodeToString :: "uint8 list \<Rightarrow> string" where
  "hex_EncodeToString bs = concat (map (\<lambda>b. [hex_digit (drop_bit 4 b), hex_digit (b AND 0x0f)]) bs)"

section \<open>Registry descriptors (pkg/config/aqua/registry.go)\<close>

text \<open>The struct \<open>Registry\<close>; every string field is empty when the YAML omits it.\<close>

record Registry =
  Name :: string
  Type :: string
  RepoOwner :: string
  RepoName :: string
  Ref :: string
  Path :: string
  Private :: bool
  URL :: string
  Version :: string
  Format :: string

definition RegistryTypeGitHubContent :: string where
  "RegistryTypeGitHubContent = ''github_content''"

definition RegistryTypeLocal :: string where
  "RegistryTypeLocal = ''local''"

definition RegistryTypeStandard :: string where
  "RegistryTypeStandard = ''standard''"

definition RegistryTypeHTTP :: string where
  "RegistryTypeHTTP = ''http''"

text \<open>
  The error variables of the package. \<open>WithFields\<close> is \<open>logerr.WithFields\<close>: the same
  error, carrying structured log fields.
\<close>

datatype registry_error =
    errInvalidRegistryType
  | errPathIsRequired
  | errRepoOwnerIsRequired
  | errRepoNameIsRequired
  | errRefIsRequired
  | errRefCannotBeMainOrMaster
  | errURLIsRequired
  | errVersionIsRequired
  | errURLMustContainVersion
  | WithFields registry_error "(string \<times> string) list"

definition validateLocal :: "Registry \<Rightarrow> registry_error option" where
  "validateLocal r = (if Path r = [] then Some errPathIsRequired else None)"

definition validateGitHubContent :: "Registry \<Rightarrow> registry_error option" where
  "validateGitHubContent r =
     (if RepoOwner r = [] then Some errRepoOwnerIsRequired
      else if RepoName r = [] then Some errRepoNameIsRequired
      else if Ref r = [] then Some errRefIsRequired
      else if Ref r = ''main'' \<or> Ref r = ''master'' then Some errRefCannotBeMainOrMaster
      else None)"

definition validateHTTP :: "Registry \<Rightarrow> registry_error option" where
  "validateHTTP r =
     (if URL r = [] then Some errURLIsRequired
      else if Version r = [] then Some errVersionIsRequired
      else if \<not> strings_Contains (URL r) ''{{.Version}}'' then Some errURLMustContainVersion
      else None)"

definition Validate :: "Registry \<Rightarrow> registry_error option" where
  "Validate r =
     (if Type r = RegistryTypeLocal then validateLocal r
      else if Type r = RegistryTypeGitHubContent then validateGitHubContent r
      else if Type r = RegistryTypeHTTP then validateHTTP r
      else Some (WithFields errInvalidRegistryType [(''registry_type'', Type r)]))"

text \<open>
  \<open>UnmarshalYAML\<close>. The argument \<open>unmarshal\<close> is the decoder the YAML library passes in:
  it fills a copy of the receiver from the document, or fails. On failure the receiver
  is left as it was and the error is returned.
\<close>

definition UnmarshalYAML :: "Registry \<Rightarrow> (Registry \<Rightarrow> 'e + Registry) \<Rightarrow> 'e + Registry" where
  "UnmarshalYAML r unmarshal =
     (case unmarshal r of
        Inl err \<Rightarrow> Inl err
      | Inr a \<Rightarrow>
          if Type a = RegistryTypeStandard then
            (let a = a\<lparr>Type := RegistryTypeGitHubContent\<rparr>;
                 a = (if Name a = [] then a\<lparr>Name := RegistryTypeStandard\<rparr> else a);
                 a = (if RepoOwner a = [] then a\<lparr>RepoOwner := ''aquaproj''\<rparr> else a);
                 a = (if RepoName a = [] then a\<lparr>RepoName := ''aqua-registry''\<rparr> else a);
                 a = (if Path a = [] then a\<lparr>Path := ''registry.yaml''\<rparr> else a)
             in Inr a)
          else Inr a)"

text \<open>
  \<open>FilePath\<close>. The helper \<open>osfile.Abs\<close>, which only the branch for local registries calls,
  is declared outside the given sources and is a parameter here.
\<close>

definition FilePath ::
  "(string \<Rightarrow> string \<Rightarrow> string) \<Rightarrow> Registry \<Rightarrow> string \<Rightarrow> string \<Rightarrow> registry_error + string" where
  "FilePath osfile_Abs r rootDir cfgFilePath =
     (if Type r = RegistryTypeLocal then
        Inr (osfile_Abs (filepath_Dir cfgFilePath) (Path r))
      else if Type r = RegistryTypeGitHubContent then
        Inr (filepath_Join [rootDir, ''registries'', Type r, ''github.com'', RepoOwner r,
                            RepoName r, Ref r, Path r])
      else if Type r = RegistryTypeHTTP then
        (let urlHash = sha256_Sum256 (URL r);
             hashStr = take 16 (hex_EncodeToString urlHash);
             registryFileName = (if Path r \<noteq> [] then filepath_Base (Path r) else ''registry.yaml'')
         in Inr (filepath_Join [rootDir, ''registries'', Type r, hashStr, Version r,
                                registryFileName]))
      else Inl errInvalidRegistryType)"

text \<open>The zero value of the struct, which a fresh \<open>Registry\<close> holds before decoding.\<close>

definition zeroRegistry :: Registry where
  "zeroRegistry = \<lparr>Name = [], Type = [], RepoOwner = [], RepoName = [], Ref = [], Path = [],
     Private = False, URL = [], Version = [], Format = []\<rparr>"

text \<open>Registries of the test tables and of the scenarios of the specification.\<close>

definition registry_main_ref :: Registry where
  "registry_main_ref = zeroRegistry\<lparr>Type := ''github_content'', RepoOwner := ''x'',
     RepoName := ''y'', Ref := ''main''\<rparr>"

definition registry_http_fixed_url :: Registry where
  "registry_http_fixed_url = zeroRegistry\<lparr>Type := ''http'',
     URL := ''https://e/v1/registry.yaml'', Version := ''v1''\<rparr>"

definition registry_http_no_version :: Registry where
  "registry_http_no_version = zeroRegistry\<lparr>Type := ''http'',
     URL := ''https://e/v1/registry.yaml''\<rparr>"

definition registry_http_empty :: Registry where
  "registry_http_empty = zeroRegistry\<lparr>Type := ''http''\<rparr>"

definition registry_http_ok :: Registry where
  "registry_http_ok = zeroRegistry\<lparr>Type := ''http'',
     URL := ''https://example.com/registry/{{.Version}}/registry.yaml'', Version := ''v1.0.0''\<rparr>"

definition registry_standard_yaml :: "Registry \<Rightarrow> unit + Registry" where
  "registry_standard_yaml a = Inr (a\<lparr>Type := ''standard'', Ref := ''v2.5.0''\<rparr>)"

definition registry_http_targz :: Registry where
  "registry_http_targz = zeroRegistry\<lparr>Type := ''http'',
     URL := ''https://example.com/registry/{{.Version}}/registry.tar.gz'', Version := ''v1.0.0''\<rparr>"

section \<open>Downloading release assets (package download)\<close>

type_synonym int64 = "64 word"

text \<open>A response body (\<open>io.ReadCloser\<close>) is the bytes it yields.\<close>

type_synonym body = string

datatype download_error =
    HTTPError string
  | GitHubError string
  | errGitHubTokenIsRequired
  | AssetNotFound string
  | GetReleaseByTagFailed download_error
  | DownloadReleaseAssetFailed int64 download_error
  | RedirectDownloadFailed download_error

text \<open>
  \<open>github.ReleaseAsset\<close> and \<open>github.RepositoryRelease\<close>, with the fields the downloader reads.
  Both fields of an asset are pointers, and the slice holds pointers to assets; the
  getters \<open>GetName\<close> and \<open>GetID\<close> return the zero value through any \<open>nil\<close>.
\<close>

record ReleaseAsset =
  asset_ID :: "int64 option"
  asset_Name :: "string option"

record RepositoryRelease =
  Assets :: "ReleaseAsset option list"

definition GetName :: "ReleaseAsset option \<Rightarrow> string" where
  "GetName asset = (case asset of None \<Rightarrow> [] | Some a \<Rightarrow> (case asset_Name a of None \<Rightarrow> [] | Some n \<Rightarrow> n))"

definition GetID :: "ReleaseAsset option \<Rightarrow> int64" where
  "GetID asset = (case asset of None \<Rightarrow> 0 | Some a \<Rightarrow> (case asset_ID a of None \<Rightarrow> 0 | Some i \<Rightarrow> i))"

text \<open>
  The two collaborators: the GitHub client (\<open>nil\<close> when none is configured) and the
  anonymous HTTP downloader. \<open>DownloadReleaseAsset\<close> returns a body, or no body and a
  redirect URL.
\<close>

record RepositoriesService =
  GetReleaseByTag :: "string \<Rightarrow> string \<Rightarrow> string \<Rightarrow> download_error + RepositoryRelease"
  DownloadReleaseAsset :: "string \<Rightarrow> string \<Rightarrow> int64 \<Rightarrow> download_error + (body option \<times> string)"

record pkgDownloader =
  github :: "RepositoriesService option"
  http_Download :: "string \<Rightarrow> download_error + body"

text \<open>The requests a download makes, in order.\<close>

datatype request =
    HTTP_GET string
  | API_GetReleaseByTag string string string
  | API_DownloadReleaseAsset string string int64

fun getAssetIDFromAssets :: "ReleaseAsset option list \<Rightarrow> string \<Rightarrow> download_error + int64" where
  "getAssetIDFromAssets [] assetName = Inl (AssetNotFound assetName)"
| "getAssetIDFromAssets (asset # assets) assetName =
     (if GetName asset = assetName then Inr (GetID asset)
      else getAssetIDFromAssets assets assetName)"

definition release_url :: "string \<Rightarrow> string \<Rightarrow> string \<Rightarrow> string \<Rightarrow> string" where
  "release_url owner repoName version assetName =
     ''https://github.com/'' @ owner @ ''/'' @ repoName @ ''/releases/download/'' @ version
       @ ''/'' @ assetName"

definition downloadFromGitHubRelease ::
  "pkgDownloader \<Rightarrow> string \<Rightarrow> string \<Rightarrow> string \<Rightarrow> string \<Rightarrow> request list \<times> (download_error + body)" where
  "downloadFromGitHubRelease downloader owner repoName version assetName =
     (let url = release_url owner repoName version assetName in
      case http_Download downloader url of
        Inr b \<Rightarrow> ([HTTP_GET url], Inr b)
      | Inl err \<Rightarrow>
         (case github downloader of
            None \<Rightarrow> ([HTTP_GET url], Inl errGitHubTokenIsRequired)
          | Some gh \<Rightarrow>
             (case GetReleaseByTag gh owner repoName version of
                Inl err \<Rightarrow>
                  ([HTTP_GET url, API_GetReleaseByTag owner repoName version],
                   Inl (GetReleaseByTagFailed err))
              | Inr release \<Rightarrow>
                 (case getAssetIDFromAssets (Assets release) assetName of
                    Inl err \<Rightarrow>
                      ([HTTP_GET url, API_GetReleaseByTag owner repoName version], Inl err)
                  | Inr assetID \<Rightarrow>
                     (let reqs = [HTTP_GET url, API_GetReleaseByTag owner repoName version,
                                  API_DownloadReleaseAsset owner repoName assetID] in
                      case DownloadReleaseAsset gh owner repoName assetID of
                        Inl err \<Rightarrow> (reqs, Inl (DownloadReleaseAssetFailed assetID err))
                      | Inr (Some body, redirectURL) \<Rightarrow> (reqs, Inr body)
                      | Inr (None, redirectURL) \<Rightarrow>
                         (case http_Download downloader redirectURL of
                            Inl err \<Rightarrow>
                              (reqs @ [HTTP_GET redirectURL], Inl (RedirectDownloadFailed err))
                          | Inr b \<Rightarrow> (reqs @ [HTTP_GET redirectURL], Inr b)))))))"

text \<open>Scenario: no GitHub client, the anonymous URL answers 404.\<close>

definition downloader_anonymous_404 :: pkgDownloader where
  "downloader_anonymous_404 =
     \<lparr>github = None, http_Download = (\<lambda>url. Inl (HTTPError ''404 Not Found''))\<rparr>"

text \<open>Scenario 5 of the specification: the anonymous URL answers 404, the API has the asset.\<close>

definition github_with_asset :: RepositoriesService where
  "github_with_asset =
     \<lparr>GetReleaseByTag = (\<lambda>owner repo version. Inr \<lparr>Assets =
          [Some \<lparr>asset_ID = Some 7, asset_Name = Some ''checksums.txt''\<rparr>,
           Some \<lparr>asset_ID = Some 8, asset_Name = Some ''tool_linux_amd64.tar.gz''\<rparr>]\<rparr>),
       DownloadReleaseAsset = (\<lambda>owner repo assetID.
          if assetID = 8 then Inr (Some ''asset body'', []) else Inl (GitHubError ''404''))\<rparr>"

definition downloader_api_fallback :: pkgDownloader where
  "downloader_api_fallback =
     \<lparr>github = Some github_with_asset,
      http_Download = (\<lambda>url. Inl (HTTPError ''404 Not Found''))\<rparr>"

definition github_redirecting :: RepositoriesService where
  "github_redirecting =
     \<lparr>GetReleaseByTag = (\<lambda>owner repo version. Inr \<lparr>Assets =
          [Some \<lparr>asset_ID = Some 8, asset_Name = Some ''tool_linux_amd64.tar.gz''\<rparr>]\<rparr>),
       DownloadReleaseAsset = (\<lambda>owner repo assetID. Inr (None, ''https://objects.example/8''))\<rparr>"

definition downloader_redirect :: pkgDownloader where
  "downloader_redirect =
     \<lparr>github = Some github_redirecting,
      http_Download = (\<lambda>url. if url = ''https://objects.example/8'' then Inr ''redirected body''
                               else Inl (HTTPError ''404 Not Found''))\<rparr>"

definition downloader_anonymous_ok :: pkgDownloader where
  "downloader_anonymous_ok =
     \<lparr>github = Some github_with_asset, http_Download = (\<lambda>url. Inr ''anonymous body'')\<rparr>"

section \<open>The filesystem (afero.Fs and the linker)\<close>

text \<open>
  What the installer sees of a file: the type bits of its mode, the inode of a regular
  file (two hard links are two paths with the same inode), the target of a symbolic link.
  \<open>Irregular\<close> stands for the remaining modes (sockets, devices).
\<close>

datatype entry = Directory | Regular nat | Symlink string | NamedPipe | Irregular

datatype fs_error = ENOENT | EEXIST | ENOTDIR | EISDIR | ENOTEMPTY | EINVAL | EPERM | ELOOP

text \<open>
  The state of the operating system's filesystem, which the program reaches through
  \<open>afero.NewOsFs\<close> and the linker of package \<open>link\<close>: the entry at each path, the contents
  of each inode, and the next free inode number. Paths are the cleaned paths the program
  builds. A call that opens or stats a file follows a symbolic link in the final element
  of its path; the directory part of a path is taken as written. A new entry needs its
  parent directory. Permissions and failures of the device are left out: a call fails
  only for the reasons its definition gives.
\<close>

record filesystem =
  entries :: "(string \<times> entry) list"
  contents :: "(nat \<times> string) list"
  next_inode :: nat

definition Lstat :: "filesystem \<Rightarrow> string \<Rightarrow> fs_error + entry" where
  "Lstat fs name = (case map_of (entries fs) name of None \<Rightarrow> Inl ENOENT | Some e \<Rightarrow> Inr e)"

text \<open>Where the link at \<open>path\<close> with target \<open>dest\<close> points: relative targets start at its directory.\<close>

definition link_target :: "string \<Rightarrow> string \<Rightarrow> string" where
  "link_target path dest =
     (if hd dest = CHR ''/'' then filepath_Clean dest
      else filepath_Join [filepath_Dir path, dest])"

text \<open>
  The file a path names once symbolic links are followed, at most \<open>n\<close> of them; the
  kernel gives up after 40.
\<close>

fun follow :: "nat \<Rightarrow> filesystem \<Rightarrow> string \<Rightarrow> fs_error + string" where
  "follow n fs path =
     (case map_of (entries fs) path of
        Some (Symlink dest) \<Rightarrow>
          if dest = [] then Inl ENOENT
          else if n = 0 then Inl ELOOP
          else follow (n - 1) fs (link_target path dest)
      | _ \<Rightarrow> Inr path)"

definition Stat :: "filesystem \<Rightarrow> string \<Rightarrow> fs_error + entry" where
  "Stat fs name = (case follow 40 fs name of Inl err \<Rightarrow> Inl err | Inr p \<Rightarrow> Lstat fs p)"

text \<open>\<open>afero.Exists\<close>: \<open>Stat\<close>, where a missing file is not an error.\<close>

definition Exists :: "filesystem \<Rightarrow> string \<Rightarrow> fs_error + bool" where
  "Exists fs name = (case Stat fs name of Inr e \<Rightarrow> Inr True | Inl err \<Rightarrow>
      if err = ENOENT then Inr False else Inl err)"

text \<open>
  What stands in the way of a new entry at \<open>name\<close>: its parent is missing or is not a
  directory. The root is its own parent and needs none.
\<close>

definition parent_error :: "filesystem \<Rightarrow> string \<Rightarrow> fs_error option" where
  "parent_error fs name =
     (if filepath_Dir name = name then None
      else case map_of (entries fs) (filepath_Dir name) of
             Some Directory \<Rightarrow> None
           | Some _ \<Rightarrow> Some ENOTDIR
           | None \<Rightarrow> Some ENOENT)"

text \<open>
  The names in directory \<open>dir\<close>: those \<open>n\<close> for which \<open>Join(dir, n)\<close> is an entry, sorted
  as \<open>afero.ReadDir\<close> returns them.
\<close>

definition dir_names :: "filesystem \<Rightarrow> string \<Rightarrow> string list" where
  "dir_names fs dir =
     sort (map filepath_Base
       (filter (\<lambda>p. p \<noteq> dir \<and> filepath_Join [dir, filepath_Base p] = p) (map fst (entries fs))))"

definition ReadDir :: "filesystem \<Rightarrow> string \<Rightarrow> fs_error + string list" where
  "ReadDir fs dirname =
     (case follow 40 fs dirname of
        Inl err \<Rightarrow> Inl err
      | Inr dir \<Rightarrow>
         (case map_of (entries fs) dir of
            None \<Rightarrow> Inl ENOENT
          | Some Directory \<Rightarrow> Inr (dir_names fs dir)
          | Some _ \<Rightarrow> Inl ENOTDIR))"

text \<open>\<open>Fs.Remove\<close> removes the entry itself, a directory only when it is empty.\<close>

definition Remove :: "filesystem \<Rightarrow> string \<Rightarrow> fs_error + filesystem" where
  "Remove fs name =
     (case map_of (entries fs) name of
        None \<Rightarrow> Inl ENOENT
      | Some e \<Rightarrow>
          if e = Directory \<and> dir_names fs name \<noteq> [] then Inl ENOTEMPTY
          else Inr (fs\<lparr>entries := AList.delete name (entries fs)\<rparr>))"

text \<open>\<open>name\<close> itself and everything below it.\<close>

definition below :: "string \<Rightarrow> string \<Rightarrow> bool" where
  "below dir p \<longleftrightarrow> p = dir \<or> prefix (if dir = ''/'' then dir else dir @ ''/'') p"

definition RemoveAll :: "filesystem \<Rightarrow> string \<Rightarrow> filesystem" where
  "RemoveAll fs name = fs\<lparr>entries := filter (\<lambda>(p, e). \<not> below name p) (entries fs)\<rparr>"

text \<open>
  Opening a file to write it from the start (\<open>O_CREATE|O_TRUNC\<close>), which \<open>Fs.Create\<close> and
  \<open>afero.WriteFile\<close> do: the file is created if missing and emptied if present. The
  result is the inode opened.
\<close>

definition open_truncated :: "filesystem \<Rightarrow> string \<Rightarrow> fs_error + nat \<times> filesystem" where
  "open_truncated fs name =
     (case follow 40 fs name of
        Inl err \<Rightarrow> Inl err
      | Inr p \<Rightarrow>
         (case map_of (entries fs) p of
            None \<Rightarrow>
              (case parent_error fs p of
                 Some err \<Rightarrow> Inl err
               | None \<Rightarrow>
                   Inr (next_inode fs,
                        fs\<lparr>entries := AList.update p (Regular (next_inode fs)) (entries fs),
                           contents := AList.update (next_inode fs) [] (contents fs),
                           next_inode := Suc (next_inode fs)\<rparr>))
          | Some (Regular i) \<Rightarrow> Inr (i, fs\<lparr>contents := AList.update i [] (contents fs)\<rparr>)
          | Some Directory \<Rightarrow> Inl EISDIR
          | Some _ \<Rightarrow> Inl EINVAL))"

definition Create :: "filesystem \<Rightarrow> string \<Rightarrow> fs_error + filesystem" where
  "Create fs name =
     (case open_truncated fs name of Inl err \<Rightarrow> Inl err | Inr (i, fs') \<Rightarrow> Inr fs')"

definition WriteFile :: "filesystem \<Rightarrow> string \<Rightarrow> string \<Rightarrow> fs_error + filesystem" where
  "WriteFile fs name data =
     (case open_truncated fs name of
        Inl err \<Rightarrow> Inl err
      | Inr (i, fs') \<Rightarrow> Inr (fs'\<lparr>contents := AList.update i data (contents fs')\<rparr>))"

definition ReadFile :: "filesystem \<Rightarrow> string \<Rightarrow> fs_error + string" where
  "ReadFile fs name =
     (case follow 40 fs name of
        Inl err \<Rightarrow> Inl err
      | Inr p \<Rightarrow>
         (case map_of (entries fs) p of
            None \<Rightarrow> Inl ENOENT
          | Some (Regular i) \<Rightarrow> (case map_of (contents fs) i of None \<Rightarrow> Inr [] | Some d \<Rightarrow> Inr d)
          | Some Directory \<Rightarrow> Inl EISDIR
          | Some _ \<Rightarrow> Inl EINVAL))"

definition Mkdir :: "filesystem \<Rightarrow> string \<Rightarrow> fs_error + filesystem" where
  "Mkdir fs name =
     (case map_of (entries fs) name of
        Some _ \<Rightarrow> Inl EEXIST
      | None \<Rightarrow>
         (case parent_error fs name of
            Some err \<Rightarrow> Inl err
          | None \<Rightarrow> Inr (fs\<lparr>entries := AList.update name Directory (entries fs)\<rparr>)))"

text \<open>
  \<open>Fs.MkdirAll\<close>: nothing to do for a directory, an error for another file; otherwise
  the parent is made first, then the directory. A path has no more ancestors than
  characters, so the recursion runs down a copy of the path.
\<close>

fun MkdirAll_upto :: "string \<Rightarrow> filesystem \<Rightarrow> string \<Rightarrow> fs_error + filesystem" where
  "MkdirAll_upto [] fs path =
     (case Stat fs path of
        Inr Directory \<Rightarrow> Inr fs
      | Inr _ \<Rightarrow> Inl ENOTDIR
      | Inl err \<Rightarrow> Mkdir fs path)"
| "MkdirAll_upto (c # bound) fs path =
     (case Stat fs path of
        Inr Directory \<Rightarrow> Inr fs
      | Inr _ \<Rightarrow> Inl ENOTDIR
      | Inl err \<Rightarrow>
          if filepath_Dir path = path then Mkdir fs path
          else (case MkdirAll_upto bound fs (filepath_Dir path) of
                  Inl err \<Rightarrow> Inl err
                | Inr fs' \<Rightarrow> Mkdir fs' path))"

definition MkdirAll :: "filesystem \<Rightarrow> string \<Rightarrow> fs_error + filesystem" where
  "MkdirAll fs path = MkdirAll_upto path fs path"

text \<open>
  The linker: \<open>os.Symlink\<close>, \<open>os.Link\<close> and \<open>os.Readlink\<close>. Neither link replaces a file,
  and neither follows a link at the path it is given.
\<close>

definition Symlink_at :: "filesystem \<Rightarrow> string \<Rightarrow> string \<Rightarrow> fs_error + filesystem" where
  "Symlink_at fs dest path =
     (case map_of (entries fs) path of
        Some _ \<Rightarrow> Inl EEXIST
      | None \<Rightarrow>
         (case parent_error fs path of
            Some err \<Rightarrow> Inl err
          | None \<Rightarrow> Inr (fs\<lparr>entries := AList.update path (Symlink dest) (entries fs)\<rparr>)))"

definition Hardlink :: "filesystem \<Rightarrow> string \<Rightarrow> string \<Rightarrow> fs_error + filesystem" where
  "Hardlink fs dest path =
     (case map_of (entries fs) dest of
        None \<Rightarrow> Inl ENOENT
      | Some Directory \<Rightarrow> Inl EPERM
      | Some e \<Rightarrow>
         (case map_of (entries fs) path of
            Some _ \<Rightarrow> Inl EEXIST
          | None \<Rightarrow>
             (case parent_error fs path of
                Some err \<Rightarrow> Inl err
              | None \<Rightarrow> Inr (fs\<lparr>entries := AList.update path e (entries fs)\<rparr>))))"

definition Readlink :: "filesystem \<Rightarrow> string \<Rightarrow> fs_error + string" where
  "Readlink fs path =
     (case map_of (entries fs) path of
        None \<Rightarrow> Inl ENOENT
      | Some (Symlink dest) \<Rightarrow> Inr dest
      | Some _ \<Rightarrow> Inl EINVAL)"

section \<open>Link layout (package installpackage)\<close>

datatype link_error =
    IsDirectory string
  | IsNamedPipe string
  | UnexpectedFileMode string entry
  | RemoveFileFailed string fs_error
  | RemoveSymlinkFailed string fs_error
  | CreateSymlinkFailed fs_error
  | ReadSymlinkFailed string fs_error
  | CreateHardLinkFailed fs_error
  | CheckHardlinkFlagFailed fs_error
  | ReadBinDirFailed fs_error
  | RemoveForHardLinkFailed fs_error
  | CreateHardlinkFlagFailed fs_error

text \<open>
  The fields of the installer that the link layout reads. \<open>GOOS\<close> is the field
  \<open>runtime.GOOS\<close>, which the environment can override; it does not change how paths are
  joined, which is that of the build.
\<close>

record Installer =
  rootDir :: string
  GOOS :: string

text \<open>
  Modelled from the spec: the constant \<open>proxyName\<close> and the function \<open>isWindows\<close> are
  declared outside the given sources. The layout of the specification links every shim to
  \<open>../aqua-proxy\<close> (the name \<open>replaceWithHardlinks\<close> spells out too), and hard links are for
  Windows.
\<close>

definition proxyName :: string where
  "proxyName = ''aqua-proxy''"

definition isWindows :: "string \<Rightarrow> bool" where
  "isWindows goos \<longleftrightarrow> goos = ''windows''"

definition createHardLink :: "filesystem \<Rightarrow> string \<Rightarrow> string \<Rightarrow> link_error option \<times> filesystem" where
  "createHardLink fs linkPath linkDest =
     (case Hardlink fs linkDest linkPath of
        Inl err \<Rightarrow> (Some (CreateHardLinkFailed err), fs)
      | Inr fs' \<Rightarrow> (None, fs'))"

definition recreateLink :: "filesystem \<Rightarrow> string \<Rightarrow> string \<Rightarrow> link_error option \<times> filesystem" where
  "recreateLink fs linkPath linkDest =
     (case Readlink fs linkPath of
        Inl err \<Rightarrow> (Some (ReadSymlinkFailed linkPath err), fs)
      | Inr lnDest \<Rightarrow>
          if linkDest = lnDest then (None, fs)
          else (case Remove fs linkPath of
                  Inl err \<Rightarrow> (Some (RemoveSymlinkFailed linkPath err), fs)
                | Inr fs1 \<Rightarrow>
                   (case Symlink_at fs1 linkDest linkPath of
                      Inl err \<Rightarrow> (Some (CreateSymlinkFailed err), fs1)
                    | Inr fs2 \<Rightarrow> (None, fs2))))"

definition createLink :: "filesystem \<Rightarrow> string \<Rightarrow> string \<Rightarrow> link_error option \<times> filesystem" where
  "createLink fs linkPath linkDest =
     (case Lstat fs linkPath of
        Inr Directory \<Rightarrow> (Some (IsDirectory linkPath), fs)
      | Inr NamedPipe \<Rightarrow> (Some (IsNamedPipe linkPath), fs)
      | Inr (Regular i) \<Rightarrow>
         (case Remove fs linkPath of
            Inl err \<Rightarrow> (Some (RemoveFileFailed linkPath err), fs)
          | Inr fs1 \<Rightarrow>
             (case Symlink_at fs1 linkDest linkPath of
                Inl err \<Rightarrow> (Some (CreateSymlinkFailed err), fs1)
              | Inr fs2 \<Rightarrow> (None, fs2)))
      | Inr (Symlink t) \<Rightarrow> recreateLink fs linkPath linkDest
      | Inr Irregular \<Rightarrow> (Some (UnexpectedFileMode linkPath Irregular), fs)
      | Inl err \<Rightarrow>
         (case Symlink_at fs linkDest linkPath of
            Inl err \<Rightarrow> (Some (CreateSymlinkFailed err), fs)
          | Inr fs' \<Rightarrow> (None, fs')))"

text \<open>
  A package, as \<open>createLinks\<close> reads it: the files \<open>pkg.PackageInfo.GetFiles()\<close> returns,
  each with its name.
\<close>

record File =
  file_Name :: string

record Package =
  GetFiles :: "File list"

text \<open>The inner loop of \<open>createLinks\<close>, over the files of one package.\<close>

fun createLinks_files :: "Installer \<Rightarrow> File list \<Rightarrow> bool \<times> filesystem \<Rightarrow> bool \<times> filesystem" where
  "createLinks_files is [] (failed, fs) = (failed, fs)"
| "createLinks_files is (file # files) (failed, fs) =
     (if isWindows (GOOS is) then
        (case createHardLink fs (filepath_Join [rootDir is, ''bin'', file_Name file @ ''.exe''])
                (filepath_Join [rootDir is, proxyName @ ''.exe'']) of
           (Some err, fs') \<Rightarrow> createLinks_files is files (True, fs')
         | (None, fs') \<Rightarrow> createLinks_files is files (failed, fs'))
      else
        (case createLink fs (filepath_Join [rootDir is, ''bin'', file_Name file])
                (filepath_Join [''..'', proxyName]) of
           (Some err, fs') \<Rightarrow> createLinks_files is files (True, fs')
         | (None, fs') \<Rightarrow> createLinks_files is files (failed, fs')))"

fun createLinks_pkgs :: "Installer \<Rightarrow> Package list \<Rightarrow> bool \<times> filesystem \<Rightarrow> bool \<times> filesystem" where
  "createLinks_pkgs is [] st = st"
| "createLinks_pkgs is (pkg # pkgs) st =
     createLinks_pkgs is pkgs (createLinks_files is (GetFiles pkg) st)"

definition createLinks :: "Installer \<Rightarrow> filesystem \<Rightarrow> Package list \<Rightarrow> bool \<times> filesystem" where
  "createLinks is fs pkgs = createLinks_pkgs is pkgs (False, fs)"

text \<open>The loop of \<open>replaceWithHardlinks\<close> over the entries of the bin directory.\<close>

fun replace_entries :: "filesystem \<Rightarrow> string \<Rightarrow> string \<Rightarrow> string list \<Rightarrow> link_error option \<times> filesystem" where
  "replace_entries fs binDir proxy [] = (None, fs)"
| "replace_entries fs binDir proxy (name # infos) =
     (let p = filepath_Join [binDir, name] in
      case Remove fs p of
        Inl err \<Rightarrow> (Some (RemoveForHardLinkFailed err), fs)
      | Inr fs1 \<Rightarrow>
         (case Hardlink fs1 proxy p of
            Inl err \<Rightarrow> (Some (CreateHardLinkFailed err), fs1)
          | Inr fs2 \<Rightarrow> replace_entries fs2 binDir proxy infos))"

definition replaceWithHardlinks :: "Installer \<Rightarrow> filesystem \<Rightarrow> link_error option \<times> filesystem" where
  "replaceWithHardlinks is fs =
     (let hardlinkFile = filepath_Join [rootDir is, ''hardlink''] in
      case Exists fs hardlinkFile of
        Inl err \<Rightarrow> (Some (CheckHardlinkFlagFailed err), fs)
      | Inr True \<Rightarrow> (None, fs)
      | Inr False \<Rightarrow>
         (let binDir = filepath_Join [rootDir is, ''bin''] in
          case ReadDir fs binDir of
            Inl err \<Rightarrow> (Some (ReadBinDirFailed err), fs)
          | Inr infos \<Rightarrow>
             (let proxy = filepath_Join [rootDir is, ''aqua-proxy''] in
              case replace_entries fs binDir proxy infos of
                (Some err, fs1) \<Rightarrow> (Some err, fs1)
              | (None, fs1) \<Rightarrow>
                 (case Create fs1 hardlinkFile of
                    Inl err \<Rightarrow> (Some (CreateHardlinkFlagFailed err), fs1)
                  | Inr fs2 \<Rightarrow> (None, fs2)))))"

text \<open>The entry at \<open>q\<close> is a symbolic link to \<open>dest\<close>.\<close>

definition links_to :: "filesystem \<Rightarrow> string \<Rightarrow> string \<Rightarrow> bool" where
  "links_to fs dest q \<longleftrightarrow> map_of (entries fs) q = Some (Symlink dest)"

text \<open>Installations for the scenarios: a root with the \<open>hardlink\<close> sentinel, one before
  the migration with two shims, and one on Windows.\<close>

definition installer_linux :: Installer where
  "installer_linux = \<lparr>rootDir = ''/root/.aqua'', GOOS = ''linux''\<rparr>"

definition installer_windows :: Installer where
  "installer_windows = \<lparr>rootDir = ''/root/.aqua'', GOOS = ''windows''\<rparr>"

definition pkgs_gh :: "Package list" where
  "pkgs_gh = [\<lparr>GetFiles = [\<lparr>file_Name = ''gh''\<rparr>]\<rparr>]"

definition fs_windows :: filesystem where
  "fs_windows =
     \<lparr>entries = [(''/root/.aqua'', Directory), (''/root/.aqua/bin'', Directory),
                 (''/root/.aqua/aqua-proxy.exe'', Regular 1)],
      contents = [(1, ''proxy'')], next_inode = 2\<rparr>"

definition fs_linux_migrated :: filesystem where
  "fs_linux_migrated =
     \<lparr>entries = [(''/root/.aqua'', Directory), (''/root/.aqua/bin'', Directory),
                 (''/root/.aqua/aqua-proxy'', Regular 1), (''/root/.aqua/hardlink'', Regular 2)],
      contents = [(1, ''proxy''), (2, [])], next_inode = 3\<rparr>"

definition fs_before_migration :: filesystem where
  "fs_before_migration =
     \<lparr>entries = [(''/root/.aqua'', Directory), (''/root/.aqua/bin'', Directory),
                 (''/root/.aqua/aqua-proxy'', Regular 1),
                 (''/root/.aqua/bin/gh'', Symlink ''../aqua-proxy''),
                 (''/root/.aqua/bin/jq'', Symlink ''../aqua-proxy'')],
      contents = [(1, ''proxy'')], next_inode = 2\<rparr>"

definition fs_bin_kinds :: filesystem where
  "fs_bin_kinds =
     \<lparr>entries = [(''/r/bin'', Directory), (''/r/bin/dir'', Directory), (''/r/bin/pipe'', NamedPipe),
                 (''/r/bin/file'', Regular 1), (''/r/bin/same'', Symlink ''../aqua-proxy''),
                 (''/r/bin/stale'', Symlink ''../old-proxy'')],
      contents = [(1, ''#!/bin/sh'')], next_inode = 2\<rparr>"

section \<open>Installing an HTTP registry from an archive (package registry)\<close>

datatype install_error =
    CreateTempDirFailed fs_error
  | WriteTempArchiveFailed fs_error
  | CreateExtractDirFailed fs_error
  | UnarchiveFailed string
  | RegistryFileNotFound "string list"
  | WriteRegistryFileFailed fs_error
  | ParseJSONFailed string
  | ParseYAMLFailed string

text \<open>
  The collaborators of the installer: the unarchiver, which reads the archive at
  \<open>Filename\<close> of the given \<open>Type\<close> and fills the destination directory, and the two
  decoders that turn the bytes of a registry file into a \<open>registry.Config\<close>.
\<close>

record 'cfg registry_env =
  Unarchive :: "filesystem \<Rightarrow> string \<Rightarrow> string \<Rightarrow> string \<Rightarrow> string + filesystem"
  json_Unmarshal :: "string \<Rightarrow> string + 'cfg"
  yaml_Unmarshal :: "string \<Rightarrow> string + 'cfg"

text \<open>
  Modelled from the spec: \<open>isJSON\<close> is declared outside the given sources. Section 4.2
  parses as JSON if the target filename ends in \<open>.json\<close>, otherwise as YAML.
\<close>

definition isJSON :: "string \<Rightarrow> bool" where
  "isJSON p \<longleftrightarrow> suffix ''.json'' p"

definition saveHTTPRegistry ::
  "'cfg registry_env \<Rightarrow> filesystem \<Rightarrow> string \<Rightarrow> string \<Rightarrow> (install_error + 'cfg) \<times> filesystem" where
  "saveHTTPRegistry env fs registryFilePath content =
     (case WriteFile fs registryFilePath content of
        Inl err \<Rightarrow> (Inl (WriteRegistryFileFailed err), fs)
      | Inr fs' \<Rightarrow>
          if isJSON registryFilePath then
            (case json_Unmarshal env content of
               Inl err \<Rightarrow> (Inl (ParseJSONFailed err), fs')
             | Inr registryContent \<Rightarrow> (Inr registryContent, fs'))
          else
            (case yaml_Unmarshal env content of
               Inl err \<Rightarrow> (Inl (ParseYAMLFailed err), fs')
             | Inr registryContent \<Rightarrow> (Inr registryContent, fs')))"

text \<open>
  The search loop: the first path that \<open>afero.ReadFile\<close> can read, with its content. A
  successful read returns a slice that is not \<open>nil\<close>, even of an empty file, so the test
  \<open>extractedContent == nil\<close> after the loop holds exactly when no path could be read.
\<close>

fun find_registry_file :: "filesystem \<Rightarrow> string \<Rightarrow> string list \<Rightarrow> (string \<times> string) option" where
  "find_registry_file fs extractDir [] = None"
| "find_registry_file fs extractDir (searchPath # searchPaths) =
     (let fullPath = filepath_Join [extractDir, searchPath] in
      case ReadFile fs fullPath of
        Inr data \<Rightarrow> Some (data, fullPath)
      | Inl err \<Rightarrow> find_registry_file fs extractDir searchPaths)"

definition searchPaths_of :: "Registry \<Rightarrow> string list" where
  "searchPaths_of regist =
     (let registryFileName =
            (if Path regist \<noteq> [] then filepath_Base (Path regist) else ''registry.yaml'');
          searchPaths = [registryFileName]
      in if Path regist = [] then searchPaths @ [''registry.yml''] else [Path regist])"

text \<open>
  \<open>extractHTTPRegistryArchive\<close>, after the temporary directory has been made: everything
  the deferred \<open>RemoveAll(tempDir)\<close> follows.
\<close>

definition extract_in_tempDir ::
  "'cfg registry_env \<Rightarrow> filesystem \<Rightarrow> Registry \<Rightarrow> string \<Rightarrow> string \<Rightarrow> string
     \<Rightarrow> (install_error + 'cfg) \<times> filesystem" where
  "extract_in_tempDir env fs regist registryFilePath content tempDir =
     (let archiveExt = Format regist;
          archiveExt = (if archiveExt = ''tar'' then ''tar'' else archiveExt);
          tempArchivePath = filepath_Join [tempDir, ''registry.'' @ archiveExt]
      in case WriteFile fs tempArchivePath content of
           Inl err \<Rightarrow> (Inl (WriteTempArchiveFailed err), fs)
         | Inr fs2 \<Rightarrow>
            (let extractDir = filepath_Join [tempDir, ''extract''] in
             case MkdirAll fs2 extractDir of
               Inl err \<Rightarrow> (Inl (CreateExtractDirFailed err), fs2)
             | Inr fs3 \<Rightarrow>
                (case Unarchive env fs3 tempArchivePath (Format regist) extractDir of
                   Inl err \<Rightarrow> (Inl (UnarchiveFailed err), fs3)
                 | Inr fs4 \<Rightarrow>
                    (case find_registry_file fs4 extractDir (searchPaths_of regist) of
                       None \<Rightarrow> (Inl (RegistryFileNotFound (searchPaths_of regist)), fs4)
                     | Some (extractedContent, foundPath) \<Rightarrow>
                         saveHTTPRegistry env fs4 registryFilePath extractedContent))))"

definition extractHTTPRegistryArchive ::
  "'cfg registry_env \<Rightarrow> filesystem \<Rightarrow> Registry \<Rightarrow> string \<Rightarrow> string
     \<Rightarrow> (install_error + 'cfg) \<times> filesystem" where
  "extractHTTPRegistryArchive env fs regist registryFilePath content =
     (let tempDir = filepath_Join [filepath_Dir registryFilePath, ''.tmp''] in
      case MkdirAll fs tempDir of
        Inl err \<Rightarrow> (Inl (CreateTempDirFailed err), fs)
      | Inr fs1 \<Rightarrow>
         (case extract_in_tempDir env fs1 regist registryFilePath content tempDir of
            (result, fs') \<Rightarrow> (result, RemoveAll fs' tempDir)))"

text \<open>
  Scenario: the cache directory of an HTTP registry exists and is empty; the archive
  holds one file, which the unarchiver writes as \<open>registry.yml\<close>, as \<open>registry.yaml\<close>, as
  both, or as \<open>conf/custom.yaml\<close>, making the directories the file needs. The
  decoders return the text itself.
\<close>

definition fs_registry_cache :: filesystem where
  "fs_registry_cache =
     \<lparr>entries = [(''/c'', Directory), (''/c/v1'', Directory)], contents = [], next_inode = 1\<rparr>"

definition unpack_as :: "string list \<Rightarrow> filesystem \<Rightarrow> string \<Rightarrow> string \<Rightarrow> string \<Rightarrow> string + filesystem" where
  "unpack_as names fs filename type dest =
     (case ReadFile fs filename of
        Inl err \<Rightarrow> Inl ''open archive''
      | Inr archive \<Rightarrow>
          fold (\<lambda>n r. case r of Inl err \<Rightarrow> Inl err
                        | Inr fs' \<Rightarrow>
                           (case MkdirAll fs' (filepath_Dir (filepath_Join [dest, n])) of
                              Inl err \<Rightarrow> Inl ''mkdir''
                            | Inr fs'' \<Rightarrow>
                               (case WriteFile fs'' (filepath_Join [dest, n]) (n @ '': '' @ archive) of
                                  Inl err \<Rightarrow> Inl ''write'' | Inr fs''' \<Rightarrow> Inr fs''')))
               names (Inr fs))"

definition env_unpacking :: "string list \<Rightarrow> string registry_env" where
  "env_unpacking names =
     \<lparr>Unarchive = unpack_as names, json_Unmarshal = Inr, yaml_Unmarshal = Inr\<rparr>"

definition registry_http_archive :: Registry where
  "registry_http_archive = zeroRegistry\<lparr>Type := ''http'',
     URL := ''https://example.com/registry/{{.Version}}/registry.tar.gz'', Version := ''v1'',
     Format := ''tar.gz''\<rparr>"

text \<open>The cache directory after each step that comes before the unarchiver.\<close>

definition fs_cache_tmp :: filesystem where
  "fs_cache_tmp =
     \<lparr>entries = [(''/c'', Directory), (''/c/v1'', Directory), (''/c/v1/.tmp'', Directory)],
      contents = [], next_inode = 1\<rparr>"

definition fs_cache_archive :: filesystem where
  "fs_cache_archive =
     \<lparr>entries = [(''/c'', Directory), (''/c/v1'', Directory), (''/c/v1/.tmp'', Directory),
                 (''/c/v1/.tmp/registry.tar.gz'', Regular 1)],
      contents = [(1, ''packages: []'')], next_inode = 2\<rparr>"

definition fs_cache_extract :: filesystem where
  "fs_cache_extract =
     \<lparr>entries = [(''/c'', Directory), (''/c/v1'', Directory), (''/c/v1/.tmp'', Directory),
                 (''/c/v1/.tmp/registry.tar.gz'', Regular 1),
                 (''/c/v1/.tmp/extract'', Directory)],
      contents = [(1, ''packages: []'')], next_inode = 2\<rparr>"

definition unpacked :: "string list \<Rightarrow> filesystem" where
  "unpacked names =
     projr (unpack_as names fs_cache_extract ''/c/v1/.tmp/registry.tar.gz'' ''tar.gz''
              ''/c/v1/.tmp/extract'')"

section \<open>The exec controller (package exec)\<close>

datatype exec_error =
    ExecutorError string
  | ContextError string
  | Errorf string exec_error
  | ExitCodeError exec_error int
  | errFailedToStartProcess

text \<open>The text of an error; \<open>ecerror.Wrap\<close> attaches an exit code and keeps the text.\<close>

fun exec_Error :: "exec_error \<Rightarrow> string" where
  "exec_Error (ExecutorError msg) = msg"
| "exec_Error (ContextError msg) = msg"
| "exec_Error (Errorf msg err) = msg @ '': '' @ exec_Error err"
| "exec_Error (ExitCodeError err code) = exec_Error err"
| "exec_Error errFailedToStartProcess = ''it failed to start the process''"

text \<open>
  What the controller's collaborators do is outside the program: the \<open>k\<close>-th call of the
  executor returns \<open>Exec_result k\<close> (or \<open>ExecXSys_result k\<close>), \<open>ctx.Err()\<close> read after that
  call returns \<open>ctx_Err k\<close>, and the \<open>k\<close>-th \<open>wait\<close> ends with \<open>wait_result k\<close>:
  \<open>None\<close> when the timer fires first, the context's error when \<open>ctx.Done()\<close> wins the
  \<open>select\<close>. Calls are numbered from 0.
\<close>

record Executor =
  Exec_result :: "nat \<Rightarrow> int \<times> exec_error option"
  ExecXSys_result :: "nat \<Rightarrow> exec_error option"
  ctx_Err :: "nat \<Rightarrow> exec_error option"
  wait_result :: "nat \<Rightarrow> exec_error option"

text \<open>The calls made so far: how many times the executor ran, and each wait's duration in ms.\<close>

record exec_log =
  executions :: nat
  waits :: "nat list"

definition wait :: "Executor \<Rightarrow> nat \<Rightarrow> exec_log \<Rightarrow> exec_error option \<times> exec_log" where
  "wait ex duration l = (wait_result ex (length (waits l)), l\<lparr>waits := waits l @ [duration]\<rparr>)"

definition execCommand :: "bool \<Rightarrow> Executor \<Rightarrow> exec_log \<Rightarrow> (bool \<times> exec_error option) \<times> exec_log" where
  "execCommand enabledXSysExec ex l =
     (let k = executions l; l' = l\<lparr>executions := Suc k\<rparr> in
      if enabledXSysExec then
        (case ExecXSys_result ex k of
           Some err \<Rightarrow> ((True, Some (Errorf ''call execve(2)'' err)), l')
         | None \<Rightarrow> ((False, None), l'))
      else
        (case Exec_result ex k of
           (exitCode, Some err) \<Rightarrow>
             if exitCode = - 1 \<and> ctx_Err ex k = None
             then ((True, Some (Errorf ''execute a command'' err)), l')
             else ((False, Some (ExitCodeError err exitCode)), l')
         | (exitCode, None) \<Rightarrow> ((False, None), l')))"

function retry_loop :: "bool \<Rightarrow> Executor \<Rightarrow> nat \<Rightarrow> exec_log \<Rightarrow> exec_error option \<times> exec_log" where
  "retry_loop x ex i l =
     (if i < 10 then
        (case execCommand x ex l of
           ((retried, err), l1) \<Rightarrow>
             if \<not> retried then (err, l1)
             else (case wait ex 10 l1 of
                     (Some werr, l2) \<Rightarrow> (Some werr, l2)
                   | (None, l2) \<Rightarrow> retry_loop x ex (i + 1) l2))
      else (Some errFailedToStartProcess, l))"
  by pat_completeness auto
termination
  by (relation "measure (\<lambda>(x, ex, i, l). 10 - i)") auto

definition execCommandWithRetry :: "bool \<Rightarrow> Executor \<Rightarrow> exec_error option \<times> exec_log" where
  "execCommandWithRetry enabledXSysExec ex =
     retry_loop enabledXSysExec ex 0 \<lparr>executions = 0, waits = []\<rparr>"

text \<open>
  Attempt \<open>k\<close> did not start the process: the \<open>k\<close>-th \<open>Exec\<close> returned an error with exit
  code \<open>-1\<close>, and \<open>ctx.Err()\<close>, read right after it, was \<open>nil\<close>.
\<close>

definition not_started :: "Executor \<Rightarrow> nat \<Rightarrow> bool" where
  "not_started ex k \<longleftrightarrow>
     fst (Exec_result ex k) = - 1 \<and> snd (Exec_result ex k) \<noteq> None \<and> ctx_Err ex k = None"

text \<open>
  Attempt \<open>k\<close> is one that \<open>execCommand\<close> reports as to be retried: in the experimental
  mode any failure of \<open>ExecXSys\<close>, otherwise an attempt that did not start the process.
\<close>

definition retried :: "bool \<Rightarrow> Executor \<Rightarrow> nat \<Rightarrow> bool" where
  "retried enabledXSysExec ex k \<longleftrightarrow>
     (if enabledXSysExec then ExecXSys_result ex k \<noteq> None else not_started ex k)"

text \<open>Attempt \<open>k\<close> ran the command to a successful end.\<close>

definition succeeded :: "bool \<Rightarrow> Executor \<Rightarrow> nat \<Rightarrow> bool" where
  "succeeded enabledXSysExec ex k \<longleftrightarrow>
     (if enabledXSysExec then ExecXSys_result ex k = None else snd (Exec_result ex k) = None)"

text \<open>
  Executors for the scenarios: the process never starts, starts at the third attempt,
  exits with status 2, is killed when the context is cancelled; the context is cancelled
  during the first wait, or only during the tenth; \<open>execve\<close> fails every time.
\<close>

definition executor_never_starts :: Executor where
  "executor_never_starts =
     \<lparr>Exec_result = (\<lambda>k. (- 1, Some (ExecutorError ''fork/exec: text file busy''))),
      ExecXSys_result = (\<lambda>k. None), ctx_Err = (\<lambda>k. None), wait_result = (\<lambda>k. None)\<rparr>"

definition executor_starts_third :: Executor where
  "executor_starts_third =
     \<lparr>Exec_result = (\<lambda>k. if k < 2 then (- 1, Some (ExecutorError ''fork/exec: text file busy''))
                            else (0, None)),
      ExecXSys_result = (\<lambda>k. None), ctx_Err = (\<lambda>k. None), wait_result = (\<lambda>k. None)\<rparr>"

definition executor_exit_2 :: Executor where
  "executor_exit_2 =
     \<lparr>Exec_result = (\<lambda>k. (2, Some (ExecutorError ''exit status 2''))),
      ExecXSys_result = (\<lambda>k. None), ctx_Err = (\<lambda>k. None), wait_result = (\<lambda>k. None)\<rparr>"

definition executor_cancelled :: Executor where
  "executor_cancelled =
     \<lparr>Exec_result = (\<lambda>k. (- 1, Some (ExecutorError ''signal: killed''))),
      ExecXSys_result = (\<lambda>k. None), ctx_Err = (\<lambda>k. Some (ContextError ''context canceled'')),
      wait_result = (\<lambda>k. Some (ContextError ''context canceled''))\<rparr>"

definition executor_cancelled_in_wait :: Executor where
  "executor_cancelled_in_wait =
     \<lparr>Exec_result = (\<lambda>k. (- 1, Some (ExecutorError ''fork/exec: text file busy''))),
      ExecXSys_result = (\<lambda>k. None), ctx_Err = (\<lambda>k. None),
      wait_result = (\<lambda>k. Some (ContextError ''context canceled''))\<rparr>"

definition executor_cancelled_in_last_wait :: Executor where
  "executor_cancelled_in_last_wait =
     \<lparr>Exec_result = (\<lambda>k. (- 1, Some (ExecutorError ''fork/exec: text file busy''))),
      ExecXSys_result = (\<lambda>k. None), ctx_Err = (\<lambda>k. None),
      wait_result = (\<lambda>k. if k = 9 then Some (ContextError ''context canceled'') else None)\<rparr>"

definition executor_execve_fails :: Executor where
  "executor_execve_fails =
     \<lparr>Exec_result = (\<lambda>k. (0, None)),
      ExecXSys_result = (\<lambda>k. Some (ExecutorError ''exec format error'')),
      ctx_Err = (\<lambda>k. None), wait_result = (\<lambda>k. None)\<rparr>"

section \<open>Properties of the library functions\<close>

declare blocks256.simps [simp del]

lemma list8:
  assumes "length s = 8"
  obtains a b c d e f g h where "s = [a, b, c, d, e, f, g, h]"
  using assms by (auto simp: eval_nat_numeral length_Suc_conv)

lemma length_round256: "length s = 8 \<Longrightarrow> length (round256 k w s) = 8"
  by (erule list8) (simp add: Let_def)

lemma length_rounds256: "length s = 8 \<Longrightarrow> length (rounds256 ks w s) = 8"
  by (induction ks arbitrary: w s) (simp_all add: length_round256)

lemma length_block256: "length h = 8 \<Longrightarrow> length (block256 h w) = 8"
  by (simp add: block256_def length_rounds256)

lemma length_blocks256: "length h = 8 \<Longrightarrow> length (blocks256 h ws) = 8"
proof (induction h ws rule: blocks256.induct)
  case (1 h ws)
  show ?case
  proof (cases "length ws < 16")
    case True
    then show ?thesis using "1.prems" by (subst blocks256.simps) simp
  next
    case False
    then show ?thesis
      using "1.IH" [OF False] "1.prems"
      by (subst blocks256.simps) (simp add: length_block256)
  qed
qed

lemma length_sha256_Sum256: "length (sha256_Sum256 data) = 32"
proof -
  have "length (concat (map be_uint32 ws)) = 4 * length ws" for ws
    by (induction ws) (simp_all add: be_uint32_def)
  then show ?thesis
    by (simp add: sha256_Sum256_def length_blocks256 init256_def)
qed

lemma length_hex_EncodeToString: "length (hex_EncodeToString bs) = 2 * length bs"
  by (induction bs) (simp_all add: hex_EncodeToString_def)

lemma hex_digit_range:
  assumes "unat n < 16"
  shows "hex_digit n \<in> set ''0123456789abcdef''"
proof -
  have "unat n < length ''0123456789abcdef''" using assms by simp
  then show ?thesis unfolding hex_digit_def by (rule nth_mem)
qed

lemma high_nibble: "unat (drop_bit 4 (b :: uint8)) < 16"
proof -
  have "unat b < 256" using unsigned_less [of b] by simp
  moreover have "unat (drop_bit 4 b) = unat b div 16"
    unfolding unat_drop_bit_eq by (simp add: drop_bit_eq_div)
  ultimately show ?thesis by simp
qed

lemma low_nibble: "unat ((b :: uint8) AND 0x0f) < 16"
proof -
  have "unat (b AND 15) \<le> unat (15 :: uint8)"
    by (rule word_and_le1 [THEN word_le_nat_alt [THEN iffD1]])
  then show ?thesis by simp
qed

lemma set_hex_EncodeToString: "set (hex_EncodeToString bs) \<subseteq> set ''0123456789abcdef''"
  unfolding hex_EncodeToString_def
  using hex_digit_range [OF high_nibble] hex_digit_range [OF low_nibble]
  by (induction bs) auto

text \<open>The digest of the standard's one-block example, and of the URL template of the tests.\<close>

lemma sha256_abc:
  "hex_EncodeToString (sha256_Sum256 ''abc'')
     = ''ba7816bf8f01cfea414140de5dae2223b00361a396177a9cb410ff61f20015ad''"
  by code_simp

lemma sha256_registry_url:
  "hex_EncodeToString (sha256_Sum256 ''https://example.com/registry/{{.Version}}/registry.tar.gz'')
     = ''06eeabea3ca08429e895e3af97fb43d94148488355582a237a689c28534bdf2a''"
  by code_simp

section \<open>Properties of registry validation\<close>

lemmas RegistryType_defs =
  RegistryTypeGitHubContent_def RegistryTypeLocal_def RegistryTypeStandard_def RegistryTypeHTTP_def

lemma strings_Contains_sublist: "strings_Contains s substr \<longleftrightarrow> sublist substr s"
  by (induction s) (auto simp: sublist_Cons_right)

lemma Validate_other:
  assumes "Type r \<noteq> ''local''" "Type r \<noteq> ''github_content''" "Type r \<noteq> ''http''"
  shows "Validate r = Some (WithFields errInvalidRegistryType [(''registry_type'', Type r)])"
  using assms unfolding Validate_def RegistryType_defs by simp

lemma standard_not_valid_type:
  "''standard'' \<noteq> ''local''" "''standard'' \<noteq> ''github_content''" "''standard'' \<noteq> ''http''"
  by simp_all

lemma UnmarshalYAML_standard:
  assumes "unmarshal r0 = Inr a" "Type a = ''standard''"
  shows "\<exists>r'. UnmarshalYAML r0 unmarshal = Inr r' \<and> Type r' = ''github_content''
           \<and> RepoOwner r' \<noteq> [] \<and> RepoName r' \<noteq> [] \<and> Ref r' = Ref a"
  using assms unfolding UnmarshalYAML_def RegistryType_defs by (simp add: Let_def)

lemma Validate_github_content:
  assumes "Type r = ''github_content''" "RepoOwner r \<noteq> []" "RepoName r \<noteq> []"
  shows "Validate r = None \<longleftrightarrow> Ref r \<notin> {[], ''main'', ''master''}"
  using assms unfolding Validate_def validateGitHubContent_def RegistryType_defs by simp

subsection \<open>Registries of type github-content\<close>

text \<open>
  Claim C6. For a registry of type \<open>github_content\<close>, \<open>Validate\<close> returns no error exactly
  when \<open>repo_owner\<close>, \<open>repo_name\<close> and \<open>ref\<close> are non-empty and \<open>ref\<close> is neither
  \<open>main\<close> nor \<open>master\<close>; so a registry that validates has its ref outside
  \<open>{"", "main", "master"}\<close>, and every registry whose ref is one of these fails. Once owner
  and name are present, a ref \<open>main\<close> or \<open>master\<close> is reported as
  \<open>errRefCannotBeMainOrMaster\<close>; the registry of the specification's scenario
  (\<open>repo_owner = x\<close>, \<open>repo_name = y\<close>, \<open>ref = main\<close>) fails with exactly that error.
\<close>

theorem github_content_ref_validated:
  assumes "Type r = RegistryTypeGitHubContent"
  shows "(Validate r = None \<longleftrightarrow>
            RepoOwner r \<noteq> [] \<and> RepoName r \<noteq> [] \<and> Ref r \<notin> {[], ''main'', ''master''})
       \<and> (Ref r \<in> {[], ''main'', ''master''} \<longrightarrow> Validate r \<noteq> None)
       \<and> (RepoOwner r \<noteq> [] \<and> RepoName r \<noteq> [] \<and> Ref r \<in> {''main'', ''master''}
            \<longrightarrow> Validate r = Some errRefCannotBeMainOrMaster)
       \<and> Validate registry_main_ref = Some errRefCannotBeMainOrMaster"
  using assms
  by (auto simp: Validate_def validateGitHubContent_def RegistryType_defs
                 registry_main_ref_def zeroRegistry_def)

theorem github_content_ref_validated_witness:
  "Type registry_main_ref = RegistryTypeGitHubContent
   \<and> Ref registry_main_ref = ''main''
   \<and> Validate registry_main_ref = Some errRefCannotBeMainOrMaster"
  using github_content_ref_validated [of registry_main_ref]
  by (simp add: registry_main_ref_def zeroRegistry_def RegistryType_defs)

subsection \<open>http registries\<close>

text \<open>
  Claim C7, as stated, at the registry \<open>{type: http, url: https://e/v1/registry.yaml}\<close> with
  no version: the URL is non-empty and lacks \<open>{{.Version}}\<close>, yet the error is
  \<open>errVersionIsRequired\<close>, not \<open>errURLMustContainVersion\<close>, because the version check comes
  before the token check.
\<close>

theorem http_missing_token_error_counterexample:
  "Type registry_http_no_version = RegistryTypeHTTP
   \<and> URL registry_http_no_version \<noteq> []
   \<and> \<not> sublist ''{{.Version}}'' (URL registry_http_no_version)
   \<and> Validate registry_http_no_version = Some errVersionIsRequired
   \<and> Validate registry_http_no_version \<noteq> Some errURLMustContainVersion"
  by (simp add: registry_http_no_version_def zeroRegistry_def RegistryType_defs
        Validate_def validateHTTP_def strings_Contains_sublist [symmetric])

text \<open>
  Claim C7, amended. For a registry of type \<open>http\<close>, \<open>Validate\<close> returns no error exactly when
  URL and Version are non-empty and the URL contains the literal substring \<open>{{.Version}}\<close>.
  The checks run in this order and the first that fails decides the error: an empty URL
  gives \<open>errURLIsRequired\<close>; a non-empty URL with an empty Version gives
  \<open>errVersionIsRequired\<close>; a non-empty URL and Version with the token missing give
  \<open>errURLMustContainVersion\<close>.
\<close>

theorem http_validate_cases:
  assumes "Type r = RegistryTypeHTTP"
  shows "(Validate r = None \<longleftrightarrow>
            URL r \<noteq> [] \<and> Version r \<noteq> [] \<and> sublist ''{{.Version}}'' (URL r))
       \<and> (URL r = [] \<longrightarrow> Validate r = Some errURLIsRequired)
       \<and> (URL r \<noteq> [] \<and> Version r = [] \<longrightarrow> Validate r = Some errVersionIsRequired)
       \<and> (URL r \<noteq> [] \<and> Version r \<noteq> [] \<and> \<not> sublist ''{{.Version}}'' (URL r)
            \<longrightarrow> Validate r = Some errURLMustContainVersion)"
  using assms
  by (auto simp: Validate_def validateHTTP_def RegistryType_defs
        strings_Contains_sublist [symmetric])

theorem http_validate_cases_witness:
  "Type registry_http_ok = RegistryTypeHTTP
   \<and> Type registry_http_empty = RegistryTypeHTTP
   \<and> Type registry_http_no_version = RegistryTypeHTTP
   \<and> Type registry_http_fixed_url = RegistryTypeHTTP
   \<and> Validate registry_http_ok = None
   \<and> Validate registry_http_empty = Some errURLIsRequired
   \<and> Validate registry_http_no_version = Some errVersionIsRequired
   \<and> Validate registry_http_fixed_url = Some errURLMustContainVersion"
  using http_validate_cases [of registry_http_ok] http_validate_cases [of registry_http_empty]
    http_validate_cases [of registry_http_no_version]
    http_validate_cases [of registry_http_fixed_url]
  by (simp add: registry_http_ok_def registry_http_empty_def registry_http_no_version_def
        registry_http_fixed_url_def zeroRegistry_def RegistryType_defs
        strings_Contains_sublist [symmetric])

subsection \<open>The standard registry\<close>

text \<open>
  Claim C4. Decoding a registry from YAML rewrites one of type \<open>standard\<close> to type
  \<open>github_content\<close>, and fills \<open>name\<close> with \<open>standard\<close>, \<open>repo_owner\<close> with \<open>aquaproj\<close>,
  \<open>repo_name\<close> with \<open>aqua-registry\<close> and \<open>path\<close> with \<open>registry.yaml\<close> where the document
  left them empty; \<open>ref\<close> and every other field are kept, and a field the document set is
  kept. A registry of any other type is returned as decoded, with nothing defaulted.
  The document \<open>{type: standard, ref: v2.5.0}\<close> decodes to the registry of the
  specification's scenario.
\<close>

theorem standard_registry_rewritten:
  assumes "unmarshal r = Inr a"
  shows "\<exists>r'. UnmarshalYAML r unmarshal = Inr r'
     \<and> (Type a = ''standard'' \<longrightarrow>
           Type r' = ''github_content''
         \<and> Name r' = (if Name a = [] then ''standard'' else Name a)
         \<and> RepoOwner r' = (if RepoOwner a = [] then ''aquaproj'' else RepoOwner a)
         \<and> RepoName r' = (if RepoName a = [] then ''aqua-registry'' else RepoName a)
         \<and> Path r' = (if Path a = [] then ''registry.yaml'' else Path a)
         \<and> Ref r' = Ref a \<and> Private r' = Private a \<and> URL r' = URL a
         \<and> Version r' = Version a \<and> Format r' = Format a)
     \<and> (Type a \<noteq> ''standard'' \<longrightarrow> r' = a)"
  using assms
  by (simp add: UnmarshalYAML_def RegistryType_defs Let_def)

theorem standard_registry_rewritten_witness:
  "registry_standard_yaml zeroRegistry = Inr (zeroRegistry\<lparr>Type := ''standard'', Ref := ''v2.5.0''\<rparr>)
   \<and> UnmarshalYAML zeroRegistry registry_standard_yaml =
       Inr \<lparr>Name = ''standard'', Type = ''github_content'', RepoOwner = ''aquaproj'',
            RepoName = ''aqua-registry'', Ref = ''v2.5.0'', Path = ''registry.yaml'',
            Private = False, URL = [], Version = [], Format = []\<rparr>"
  using standard_registry_rewritten [of registry_standard_yaml zeroRegistry
      "zeroRegistry\<lparr>Type := ''standard'', Ref := ''v2.5.0''\<rparr>"]
  by (auto simp: registry_standard_yaml_def zeroRegistry_def)

text \<open>
  Claim C10. \<open>Validate\<close> returns the invalid-registry-type error (carrying the offending
  type as a log field) for every registry whose type is not exactly \<open>local\<close>,
  \<open>github_content\<close> or \<open>http\<close>, and so for the documented type \<open>standard\<close>. A registry
  decoded from a document of type \<open>standard\<close> is itself invalid before the rewrite; what
  \<open>UnmarshalYAML\<close> returns has type \<open>github_content\<close> and validates exactly when its ref is
  not empty, \<open>main\<close> or \<open>master\<close>.
\<close>

theorem unknown_type_invalid:
  "(Type r \<notin> {''local'', ''github_content'', ''http''} \<longrightarrow>
      Validate r = Some (WithFields errInvalidRegistryType [(''registry_type'', Type r)]))
   \<and> (Type r = ''standard'' \<longrightarrow>
      Validate r = Some (WithFields errInvalidRegistryType [(''registry_type'', ''standard'')]))
   \<and> (Type a = ''standard'' \<and> unmarshal r0 = Inr a \<longrightarrow>
        Validate a \<noteq> None
      \<and> (\<exists>r'. UnmarshalYAML r0 unmarshal = Inr r' \<and> Type r' = ''github_content''
            \<and> (Validate r' = None \<longleftrightarrow> Ref a \<notin> {[], ''main'', ''master''})))"
proof (intro conjI impI)
  assume "Type r \<notin> {''local'', ''github_content'', ''http''}"
  then show "Validate r = Some (WithFields errInvalidRegistryType [(''registry_type'', Type r)])"
    by (intro Validate_other) auto
next
  assume t: "Type r = ''standard''"
  show "Validate r = Some (WithFields errInvalidRegistryType [(''registry_type'', ''standard'')])"
    using Validate_other [of r] standard_not_valid_type unfolding t by simp
next
  assume "Type a = ''standard'' \<and> unmarshal r0 = Inr a"
  then have t: "Type a = ''standard''" by simp
  show "Validate a \<noteq> None"
    using Validate_other [of a] standard_not_valid_type unfolding t by simp
next
  assume a: "Type a = ''standard'' \<and> unmarshal r0 = Inr a"
  then obtain r' where r': "UnmarshalYAML r0 unmarshal = Inr r'" "Type r' = ''github_content''"
    "RepoOwner r' \<noteq> []" "RepoName r' \<noteq> []" "Ref r' = Ref a"
    using UnmarshalYAML_standard [of unmarshal r0 a] by blast
  from Validate_github_content [OF r'(2,3,4)] r'
  show "\<exists>r'. UnmarshalYAML r0 unmarshal = Inr r' \<and> Type r' = ''github_content''
            \<and> (Validate r' = None \<longleftrightarrow> Ref a \<notin> {[], ''main'', ''master''})"
    by simp
qed

theorem unknown_type_invalid_witness:
  "Type (zeroRegistry\<lparr>Type := ''standard'', Ref := ''v2.5.0''\<rparr>) \<notin> {''local'', ''github_content'', ''http''}
   \<and> registry_standard_yaml zeroRegistry = Inr (zeroRegistry\<lparr>Type := ''standard'', Ref := ''v2.5.0''\<rparr>)
   \<and> Validate (zeroRegistry\<lparr>Type := ''standard'', Ref := ''v2.5.0''\<rparr>) =
       Some (WithFields errInvalidRegistryType [(''registry_type'', ''standard'')])
   \<and> UnmarshalYAML zeroRegistry registry_standard_yaml =
       Inr (zeroRegistry\<lparr>Type := ''github_content'', Name := ''standard'', RepoOwner := ''aquaproj'',
            RepoName := ''aqua-registry'', Ref := ''v2.5.0'', Path := ''registry.yaml''\<rparr>)
   \<and> Validate (zeroRegistry\<lparr>Type := ''github_content'', Name := ''standard'', RepoOwner := ''aquaproj'',
            RepoName := ''aqua-registry'', Ref := ''v2.5.0'', Path := ''registry.yaml''\<rparr>) = None"
  using unknown_type_invalid [where r = "zeroRegistry\<lparr>Type := ''standard'', Ref := ''v2.5.0''\<rparr>"
      and a = "zeroRegistry\<lparr>Type := ''standard'', Ref := ''v2.5.0''\<rparr>"
      and unmarshal = registry_standard_yaml and ?r0.0 = zeroRegistry]
  by (simp add: registry_standard_yaml_def zeroRegistry_def UnmarshalYAML_def RegistryType_defs)

subsection \<open>The cache path of an http registry\<close>

text \<open>
  Claim C5. For a registry of type \<open>http\<close>, \<open>FilePath(rootDir, cfgFilePath)\<close> is \<open>rootDir\<close>
  joined with \<open>registries\<close>, \<open>http\<close>, the first 16 characters of the hexadecimal SHA-256
  digest of the URL as configured (the template, not rendered), the version, and the base
  name of \<open>Path\<close>, or \<open>registry.yaml\<close> when \<open>Path\<close> is empty. Those 16 characters are
  lower-case hexadecimal digits. For the URL
  \<open>https://example.com/registry/{{.Version}}/registry.tar.gz\<close>, version \<open>v1.0.0\<close>, root
  \<open>/root/.aqua\<close> and no path, the result is
  \<open>/root/.aqua/registries/http/06eeabea3ca08429/v1.0.0/registry.yaml\<close>.
\<close>

theorem http_registry_file_path:
  "(Type r = ''http'' \<longrightarrow>
      FilePath osfile_Abs r root cfgFilePath =
        Inr (filepath_Join [root, ''registries'', ''http'',
               take 16 (hex_EncodeToString (sha256_Sum256 (URL r))), Version r,
               if Path r = [] then ''registry.yaml'' else filepath_Base (Path r)]))
   \<and> length (take 16 (hex_EncodeToString (sha256_Sum256 (URL r)))) = 16
   \<and> set (take 16 (hex_EncodeToString (sha256_Sum256 (URL r)))) \<subseteq> set ''0123456789abcdef''
   \<and> FilePath osfile_Abs registry_http_targz ''/root/.aqua'' cfgFilePath =
        Inr ''/root/.aqua/registries/http/06eeabea3ca08429/v1.0.0/registry.yaml''"
proof (intro conjI impI)
  show "length (take 16 (hex_EncodeToString (sha256_Sum256 (URL r)))) = 16"
    by (simp add: length_hex_EncodeToString length_sha256_Sum256)
next
  show "set (take 16 (hex_EncodeToString (sha256_Sum256 (URL r)))) \<subseteq> set ''0123456789abcdef''"
    using set_take_subset set_hex_EncodeToString by (rule subset_trans)
next
  assume "Type r = ''http''"
  then show "FilePath osfile_Abs r root cfgFilePath =
        Inr (filepath_Join [root, ''registries'', ''http'',
               take 16 (hex_EncodeToString (sha256_Sum256 (URL r))), Version r,
               if Path r = [] then ''registry.yaml'' else filepath_Base (Path r)])"
    by (simp add: FilePath_def RegistryType_defs Let_def)
next
  have "FilePath osfile_Abs registry_http_targz ''/root/.aqua'' cfgFilePath =
      Inr (filepath_Join [''/root/.aqua'', ''registries'', ''http'',
             take 16 ''06eeabea3ca08429e895e3af97fb43d94148488355582a237a689c28534bdf2a'',
             ''v1.0.0'', ''registry.yaml''])"
    unfolding sha256_registry_url [symmetric]
    by (simp add: FilePath_def RegistryType_defs Let_def registry_http_targz_def zeroRegistry_def)
  then show "FilePath osfile_Abs registry_http_targz ''/root/.aqua'' cfgFilePath =
        Inr ''/root/.aqua/registries/http/06eeabea3ca08429/v1.0.0/registry.yaml''"
    by (simp add: filepath_Join_def filepath_Clean_def)
qed

theorem http_registry_file_path_witness:
  "Type registry_http_targz = ''http''
   \<and> FilePath (\<lambda>wd p. filepath_Join [wd, p]) registry_http_targz ''/root/.aqua'' ''aqua.yaml'' =
        Inr ''/root/.aqua/registries/http/06eeabea3ca08429/v1.0.0/registry.yaml''
   \<and> FilePath (\<lambda>wd p. filepath_Join [wd, p]) (registry_http_targz\<lparr>Path := ''conf/custom.yaml''\<rparr>)
        ''/root/.aqua'' ''aqua.yaml'' =
        Inr ''/root/.aqua/registries/http/06eeabea3ca08429/v1.0.0/custom.yaml''"
  using
    http_registry_file_path [where r = registry_http_targz and root = "''/root/.aqua''"
      and osfile_Abs = "\<lambda>wd p. filepath_Join [wd, p]" and cfgFilePath = "''aqua.yaml''"]
    http_registry_file_path [where r = "registry_http_targz\<lparr>Path := ''conf/custom.yaml''\<rparr>"
      and root = "''/root/.aqua''"
      and osfile_Abs = "\<lambda>wd p. filepath_Join [wd, p]" and cfgFilePath = "''aqua.yaml''"]
  by (simp add: registry_http_targz_def zeroRegistry_def sha256_registry_url
        filepath_Join_def filepath_Clean_def filepath_Base_def)

section \<open>Properties of the release download\<close>

lemma getAssetIDFromAssets_find:
  "getAssetIDFromAssets assets assetName =
     (case find (\<lambda>a. GetName a = assetName) assets of
        None \<Rightarrow> Inl (AssetNotFound assetName) | Some a \<Rightarrow> Inr (GetID a))"
  by (induction assets) auto

text \<open>
  Claim C1, as stated, with no GitHub client configured and the anonymous URL answering
  404: the anonymous attempt fails, yet no request goes to the Releases API; the download
  ends with \<open>errGitHubTokenIsRequired\<close>.
\<close>

theorem release_download_without_client_counterexample:
  "http_Download downloader_anonymous_404 (release_url ''o'' ''r'' ''v1'' ''a.tgz'')
     = Inl (HTTPError ''404 Not Found'')
   \<and> downloadFromGitHubRelease downloader_anonymous_404 ''o'' ''r'' ''v1'' ''a.tgz''
     = ([HTTP_GET ''https://github.com/o/r/releases/download/v1/a.tgz''],
        Inl errGitHubTokenIsRequired)"
  by (simp add: downloadFromGitHubRelease_def downloader_anonymous_404_def release_url_def)

text \<open>
  Claim C1, amended. A release download first requests
  \<open>https://github.com/<owner>/<repo>/releases/download/<version>/<asset>\<close> anonymously. If
  that succeeds its body is returned and nothing else is requested. If it fails and no
  GitHub client is configured, the download fails with \<open>errGitHubTokenIsRequired\<close>. If it
  fails and a client is configured, the release is fetched by tag, the first asset whose
  name equals the asset name gives the asset id, and \<open>DownloadReleaseAsset\<close> is called with
  it: the body it returns is the result, or, when it returns a redirect URL instead, the
  body of an anonymous download of that URL. So with a 404 from the anonymous URL and the
  asset present in the API, the asset body comes back through the API.
\<close>

theorem release_download_fallback:
  "release_url owner repoName version assetName =
      ''https://github.com/'' @ owner @ ''/'' @ repoName @ ''/releases/download/'' @ version
        @ ''/'' @ assetName
   \<and> hd (fst (downloadFromGitHubRelease d owner repoName version assetName))
        = HTTP_GET (release_url owner repoName version assetName)
   \<and> (http_Download d (release_url owner repoName version assetName) = Inr b0 \<longrightarrow>
        downloadFromGitHubRelease d owner repoName version assetName
          = ([HTTP_GET (release_url owner repoName version assetName)], Inr b0))
   \<and> (http_Download d (release_url owner repoName version assetName) = Inl err
        \<and> github d = None \<longrightarrow>
        downloadFromGitHubRelease d owner repoName version assetName
          = ([HTTP_GET (release_url owner repoName version assetName)],
             Inl errGitHubTokenIsRequired))
   \<and> (http_Download d (release_url owner repoName version assetName) = Inl err
        \<and> github d = Some gh
        \<and> GetReleaseByTag gh owner repoName version = Inr release
        \<and> find (\<lambda>a. GetName a = assetName) (Assets release) = Some asset
        \<and> DownloadReleaseAsset gh owner repoName (GetID asset) = Inr (Some b1, redirectURL) \<longrightarrow>
        downloadFromGitHubRelease d owner repoName version assetName
          = ([HTTP_GET (release_url owner repoName version assetName),
              API_GetReleaseByTag owner repoName version,
              API_DownloadReleaseAsset owner repoName (GetID asset)], Inr b1))
   \<and> (http_Download d (release_url owner repoName version assetName) = Inl err
        \<and> github d = Some gh
        \<and> GetReleaseByTag gh owner repoName version = Inr release
        \<and> find (\<lambda>a. GetName a = assetName) (Assets release) = Some asset
        \<and> DownloadReleaseAsset gh owner repoName (GetID asset) = Inr (None, redirectURL)
        \<and> http_Download d redirectURL = Inr b2 \<longrightarrow>
        downloadFromGitHubRelease d owner repoName version assetName
          = ([HTTP_GET (release_url owner repoName version assetName),
              API_GetReleaseByTag owner repoName version,
              API_DownloadReleaseAsset owner repoName (GetID asset),
              HTTP_GET redirectURL], Inr b2))"
  by (auto simp: downloadFromGitHubRelease_def release_url_def getAssetIDFromAssets_find Let_def
           split: sum.splits option.splits prod.splits)

theorem release_download_fallback_witness:
  "downloadFromGitHubRelease downloader_anonymous_ok ''o'' ''r'' ''v1'' ''tool_linux_amd64.tar.gz''
     = ([HTTP_GET ''https://github.com/o/r/releases/download/v1/tool_linux_amd64.tar.gz''],
        Inr ''anonymous body'')
   \<and> downloadFromGitHubRelease downloader_anonymous_404 ''o'' ''r'' ''v1'' ''tool_linux_amd64.tar.gz''
     = ([HTTP_GET ''https://github.com/o/r/releases/download/v1/tool_linux_amd64.tar.gz''],
        Inl errGitHubTokenIsRequired)
   \<and> downloadFromGitHubRelease downloader_api_fallback ''o'' ''r'' ''v1'' ''tool_linux_amd64.tar.gz''
     = ([HTTP_GET ''https://github.com/o/r/releases/download/v1/tool_linux_amd64.tar.gz'',
         API_GetReleaseByTag ''o'' ''r'' ''v1'', API_DownloadReleaseAsset ''o'' ''r'' 8],
        Inr ''asset body'')
   \<and> downloadFromGitHubRelease downloader_redirect ''o'' ''r'' ''v1'' ''tool_linux_amd64.tar.gz''
     = ([HTTP_GET ''https://github.com/o/r/releases/download/v1/tool_linux_amd64.tar.gz'',
         API_GetReleaseByTag ''o'' ''r'' ''v1'', API_DownloadReleaseAsset ''o'' ''r'' 8,
         HTTP_GET ''https://objects.example/8''],
        Inr ''redirected body'')"
  using
    release_download_fallback [where d = downloader_anonymous_ok and owner = "''o''"
      and repoName = "''r''" and version = "''v1''" and assetName = "''tool_linux_amd64.tar.gz''"
      and ?b0.0 = "''anonymous body''"]
    release_download_fallback [where d = downloader_anonymous_404 and owner = "''o''"
      and repoName = "''r''" and version = "''v1''" and assetName = "''tool_linux_amd64.tar.gz''"
      and err = "HTTPError ''404 Not Found''"]
    release_download_fallback [where d = downloader_api_fallback and owner = "''o''"
      and repoName = "''r''" and version = "''v1''" and assetName = "''tool_linux_amd64.tar.gz''"
      and err = "HTTPError ''404 Not Found''" and gh = github_with_asset
      and release = "\<lparr>Assets =
          [Some \<lparr>asset_ID = Some 7, asset_Name = Some ''checksums.txt''\<rparr>,
           Some \<lparr>asset_ID = Some 8, asset_Name = Some ''tool_linux_amd64.tar.gz''\<rparr>]\<rparr>"
      and asset = "Some \<lparr>asset_ID = Some 8, asset_Name = Some ''tool_linux_amd64.tar.gz''\<rparr>"
      and ?b1.0 = "''asset body''" and redirectURL = "[]"]
    release_download_fallback [where d = downloader_redirect and owner = "''o''"
      and repoName = "''r''" and version = "''v1''" and assetName = "''tool_linux_amd64.tar.gz''"
      and err = "HTTPError ''404 Not Found''" and gh = github_redirecting
      and release = "\<lparr>Assets =
          [Some \<lparr>asset_ID = Some 8, asset_Name = Some ''tool_linux_amd64.tar.gz''\<rparr>]\<rparr>"
      and asset = "Some \<lparr>asset_ID = Some 8, asset_Name = Some ''tool_linux_amd64.tar.gz''\<rparr>"
      and ?b2.0 = "''redirected body''" and redirectURL = "''https://objects.example/8''"]
  by (simp add: downloader_anonymous_ok_def downloader_anonymous_404_def
        downloader_api_fallback_def downloader_redirect_def github_with_asset_def
        github_redirecting_def release_url_def GetName_def GetID_def)

section \<open>Filesystem operations, as seen by Lstat\<close>

declare follow.simps [simp del]

lemma Lstat_eq_iff: "Lstat fs' q = Lstat fs q \<longleftrightarrow> map_of (entries fs') q = map_of (entries fs) q"
  by (auto simp: Lstat_def split: option.splits)

lemma Lstat_Inr_iff: "Lstat fs q = Inr e \<longleftrightarrow> map_of (entries fs) q = Some e"
  by (auto simp: Lstat_def split: option.splits)

lemma Lstat_Inl_iff: "Lstat fs q = Inl err \<longleftrightarrow> err = ENOENT \<and> map_of (entries fs) q = None"
  by (auto simp: Lstat_def split: option.splits)

lemma parent_error_delete:
  "parent_error (fs\<lparr>entries := AList.delete p (entries fs)\<rparr>) p = parent_error fs p"
  by (simp add: parent_error_def delete_conv)

lemma Remove_Inr:
  assumes "Remove fs p = Inr fs'"
  shows "map_of (entries fs') = (map_of (entries fs))(p := None)"
    and "map_of (entries fs) p \<noteq> None"
  using assms
  by (auto simp: Remove_def fun_eq_iff delete_conv split: option.splits if_splits)

lemma Remove_file:
  assumes "map_of (entries fs) p = Some e" "e \<noteq> Directory"
  shows "Remove fs p = Inr (fs\<lparr>entries := AList.delete p (entries fs)\<rparr>)"
  using assms by (simp add: Remove_def)

lemma Symlink_at_Inr:
  assumes "Symlink_at fs dest p = Inr fs'"
  shows "map_of (entries fs') = (map_of (entries fs))(p \<mapsto> Symlink dest)"
    and "map_of (entries fs) p = None"
  using assms
  by (auto simp: Symlink_at_def fun_eq_iff update_conv split: option.splits)

lemma Symlink_at_Inl:
  assumes "Symlink_at fs dest p = Inl err"
  shows "map_of (entries fs) p \<noteq> None \<or> parent_error fs p = Some err"
  using assms by (auto simp: Symlink_at_def split: option.splits)

lemma Symlink_at_absent:
  assumes "map_of (entries fs) p = None" "parent_error fs p = None"
  shows "Symlink_at fs dest p = Inr (fs\<lparr>entries := AList.update p (Symlink dest) (entries fs)\<rparr>)"
  using assms by (simp add: Symlink_at_def)

lemma Symlink_at_no_parent:
  assumes "map_of (entries fs) p = None" "parent_error fs p = Some err"
  shows "Symlink_at fs dest p = Inl err"
  using assms by (simp add: Symlink_at_def)

lemma Hardlink_Inr:
  assumes "Hardlink fs dest p = Inr fs'"
  shows "\<exists>e. map_of (entries fs) dest = Some e \<and> e \<noteq> Directory
           \<and> map_of (entries fs') = (map_of (entries fs))(p \<mapsto> e)"
    and "map_of (entries fs) p = None"
  using assms
  by (auto simp: Hardlink_def fun_eq_iff update_conv split: option.splits entry.splits)

text \<open>Following links: where it ends is not a link, and entries elsewhere do not matter.\<close>

lemma follow_0:
  "follow 0 fs p =
     (case map_of (entries fs) p of
        Some (Symlink dest) \<Rightarrow> if dest = [] then Inl ENOENT else Inl ELOOP
      | _ \<Rightarrow> Inr p)"
  by (subst follow.simps) (simp split: option.splits entry.splits)

lemma follow_Suc:
  "follow (Suc n) fs p =
     (case map_of (entries fs) p of
        Some (Symlink dest) \<Rightarrow> if dest = [] then Inl ENOENT else follow n fs (link_target p dest)
      | _ \<Rightarrow> Inr p)"
  by (subst follow.simps) (simp split: option.splits entry.splits)

lemma follow_end:
  "follow n fs p = Inr q \<Longrightarrow> map_of (entries fs) q \<noteq> Some (Symlink t)"
  by (induction n arbitrary: p)
     (auto simp: follow_0 follow_Suc split: option.splits entry.splits if_splits)

lemma follow_absent: "map_of (entries fs) p = None \<Longrightarrow> follow n fs p = Inr p"
  by (cases n) (simp_all add: follow_0 follow_Suc)

lemma follow_update_end:
  assumes "follow n fs p = Inr q"
    and "map_of (entries fs') = (map_of (entries fs))(q \<mapsto> r)"
    and "\<And>t. r \<noteq> Symlink t"
  shows "follow n fs' p = Inr q"
  using assms(1)
proof (induction n arbitrary: p)
  case 0
  then show ?case
    using assms(2,3)
    by (cases r) (auto simp: follow_0 split: option.splits entry.splits if_splits)
next
  case (Suc n)
  show ?case
  proof (cases "map_of (entries fs) p")
    case None
    with Suc.prems have "q = p" by (simp add: follow_Suc)
    with assms(2,3) show ?thesis by (cases r) (auto simp: follow_Suc)
  next
    case (Some e)
    show ?thesis
    proof (cases "\<exists>dest. e = Symlink dest")
      case True
      then obtain dest where e: "e = Symlink dest" by blast
      with Some Suc.prems have d: "dest \<noteq> []" and
        r: "follow n fs (link_target p dest) = Inr q"
        by (auto simp: follow_Suc split: if_splits)
      have "p \<noteq> q" using follow_end [OF Suc.prems, of dest] Some e by auto
      then have "map_of (entries fs') p = Some (Symlink dest)"
        using assms(2) Some e by simp
      with d Suc.IH [OF r] show ?thesis by (simp add: follow_Suc)
    next
      case False
      with Some Suc.prems have "q = p"
        by (cases e) (auto simp: follow_Suc)
      with assms(2,3) show ?thesis by (cases r) (auto simp: follow_Suc)
    qed
  qed
qed

lemma follow_grown:
  assumes "follow n fs p = Inr q" "map_of (entries fs) q \<noteq> None"
    and "\<And>x e. map_of (entries fs) x = Some e \<Longrightarrow> map_of (entries fs') x = Some e"
  shows "follow n fs' p = Inr q"
  using assms(1)
proof (induction n arbitrary: p)
  case 0
  from 0 assms(2) obtain e where e: "map_of (entries fs) p = Some e" "q = p"
    by (auto simp: follow_0 split: option.splits entry.splits if_splits)
  with 0 assms(3) [OF e(1)] show ?case
    by (cases e) (auto simp: follow_0 split: if_splits)
next
  case (Suc n)
  show ?case
  proof (cases "map_of (entries fs) p")
    case None
    with Suc.prems have "q = p" by (simp add: follow_Suc)
    with None assms(2) show ?thesis by simp
  next
    case (Some e)
    note e' = assms(3) [OF Some]
    show ?thesis
    proof (cases "\<exists>dest. e = Symlink dest")
      case True
      then obtain dest where e: "e = Symlink dest" by blast
      with Some Suc.prems have d: "dest \<noteq> []" and
        r: "follow n fs (link_target p dest) = Inr q"
        by (auto simp: follow_Suc split: if_splits)
      with e e' Suc.IH [OF r] show ?thesis by (simp add: follow_Suc)
    next
      case False
      with Some Suc.prems e' show ?thesis
        by (cases e) (auto simp: follow_Suc)
    qed
  qed
qed

text \<open>Opening a file for writing keeps every entry and leaves the path readable.\<close>

lemma open_truncated_Inr:
  assumes "open_truncated fs p = Inr (i, fs')"
  shows "\<exists>q. follow 40 fs p = Inr q \<and> follow 40 fs' p = Inr q
           \<and> map_of (entries fs') = (map_of (entries fs))(q \<mapsto> Regular i)
           \<and> (map_of (entries fs) q = None \<or> map_of (entries fs) q = Some (Regular i))
           \<and> map_of (contents fs') i = Some []"
proof -
  from assms obtain q where q: "follow 40 fs p = Inr q"
    by (auto simp: open_truncated_def split: sum.splits)
  from assms q have m: "map_of (entries fs') = (map_of (entries fs))(q \<mapsto> Regular i)"
    and old: "map_of (entries fs) q = None \<or> map_of (entries fs) q = Some (Regular i)"
    and c: "map_of (contents fs') i = Some []"
    by (auto simp: open_truncated_def fun_eq_iff update_conv
             split: option.splits entry.splits)
  have "follow 40 fs' p = Inr q"
    using q m by (rule follow_update_end) simp
  with q m old c show ?thesis by blast
qed

lemma open_truncated_keeps:
  assumes "open_truncated fs p = Inr (i, fs')" "map_of (entries fs) x = Some e"
  shows "map_of (entries fs') x = Some e"
  using open_truncated_Inr [OF assms(1)] assms(2) by auto

lemma Create_keeps:
  assumes "Create fs p = Inr fs'" "map_of (entries fs) x = Some e"
  shows "map_of (entries fs') x = Some e"
  using assms open_truncated_keeps
  by (auto simp: Create_def split: sum.splits)

lemma Create_Exists:
  assumes "Create fs p = Inr fs'"
  shows "Exists fs' p = Inr True"
proof -
  from assms obtain i where "open_truncated fs p = Inr (i, fs')"
    by (auto simp: Create_def split: sum.splits)
  from open_truncated_Inr [OF this] show ?thesis
    by (auto simp: Exists_def Stat_def Lstat_def)
qed

lemma WriteFile_ReadFile:
  assumes "WriteFile fs p c = Inr fs'"
  shows "ReadFile fs' p = Inr c"
proof -
  from assms obtain i fs1 where o: "open_truncated fs p = Inr (i, fs1)"
    and fs': "fs' = fs1\<lparr>contents := AList.update i c (contents fs1)\<rparr>"
    by (auto simp: WriteFile_def split: sum.splits)
  from open_truncated_Inr [OF o] obtain q where q: "follow 40 fs1 p = Inr q"
    "map_of (entries fs1) q = Some (Regular i)"
    by auto
  have "follow 40 fs' p = Inr q"
    using q(1) by (rule follow_grown) (simp_all add: fs' q(2))
  then show ?thesis using q(2) by (simp add: ReadFile_def fs' update_conv)
qed

section \<open>Properties of the link layout\<close>

lemma createLink_success:
  assumes "createLink fs p d = (None, fs')"
  shows "map_of (entries fs') = (map_of (entries fs))(p \<mapsto> Symlink d)"
proof (cases "map_of (entries fs) p")
  case None
  with assms show ?thesis
    by (auto simp: createLink_def Lstat_def dest: Symlink_at_Inr split: sum.splits)
next
  case (Some e)
  with assms show ?thesis
    by (cases e)
       (auto simp: createLink_def recreateLink_def Lstat_def Readlink_def
             dest!: Remove_Inr(1) Symlink_at_Inr(1) split: sum.splits if_splits)
qed

lemma relink:
  assumes "map_of (entries fs) p = Some e" "e \<noteq> Directory" "parent_error fs p = None"
  shows "Remove fs p = Inr (fs\<lparr>entries := AList.delete p (entries fs)\<rparr>)"
    and "Symlink_at (fs\<lparr>entries := AList.delete p (entries fs)\<rparr>) d p =
           Inr (fs\<lparr>entries := AList.update p (Symlink d) (AList.delete p (entries fs))\<rparr>)"
proof -
  show "Remove fs p = Inr (fs\<lparr>entries := AList.delete p (entries fs)\<rparr>)"
    using assms(1,2) by (rule Remove_file)
  have "Symlink_at (fs\<lparr>entries := AList.delete p (entries fs)\<rparr>) d p =
      Inr (fs\<lparr>entries := AList.delete p (entries fs)\<rparr>
            \<lparr>entries := AList.update p (Symlink d)
               (entries (fs\<lparr>entries := AList.delete p (entries fs)\<rparr>))\<rparr>)"
    by (rule Symlink_at_absent) (simp_all add: delete_conv parent_error_delete assms(3))
  then show "Symlink_at (fs\<lparr>entries := AList.delete p (entries fs)\<rparr>) d p =
           Inr (fs\<lparr>entries := AList.update p (Symlink d) (AList.delete p (entries fs))\<rparr>)"
    by simp
qed

text \<open>
  Claim C9. \<open>createLink(linkPath, linkDest)\<close> looks at the file at \<open>linkPath\<close> without
  following it. A directory or a named pipe makes it fail and the filesystem is left as
  it was. A regular file is removed and a symbolic link to \<open>linkDest\<close> is put in its place.
  A symbolic link that already points to \<open>linkDest\<close> is left untouched; one that points
  elsewhere is removed and made again with target \<open>linkDest\<close>. When nothing is there, the
  symbolic link is created. Removing and linking are the filesystem's and the linker's
  work: each case is stated for the run in which they succeed, and they do succeed when
  the parent of \<open>linkPath\<close> is a directory. Where nothing is at \<open>linkPath\<close> and the parent is
  missing, the linker's error is returned and nothing is created. Whenever \<open>createLink\<close>
  succeeds, \<open>linkPath\<close> is a symbolic link to \<open>linkDest\<close> and no other path has changed.
\<close>

theorem createLink_cases:
  "(Lstat fs linkPath = Inr Directory \<longrightarrow>
      createLink fs linkPath linkDest = (Some (IsDirectory linkPath), fs))
   \<and> (Lstat fs linkPath = Inr NamedPipe \<longrightarrow>
      createLink fs linkPath linkDest = (Some (IsNamedPipe linkPath), fs))
   \<and> (Lstat fs linkPath = Inr (Regular i) \<and> Remove fs linkPath = Inr fs1
        \<and> Symlink_at fs1 linkDest linkPath = Inr fs2 \<longrightarrow>
      createLink fs linkPath linkDest = (None, fs2))
   \<and> (Lstat fs linkPath = Inr (Regular i) \<and> parent_error fs linkPath = None \<longrightarrow>
      createLink fs linkPath linkDest =
        (None, fs\<lparr>entries := AList.update linkPath (Symlink linkDest)
                               (AList.delete linkPath (entries fs))\<rparr>))
   \<and> (Lstat fs linkPath = Inr (Symlink linkDest) \<longrightarrow>
      createLink fs linkPath linkDest = (None, fs))
   \<and> (Lstat fs linkPath = Inr (Symlink lnDest) \<and> lnDest \<noteq> linkDest
        \<and> Remove fs linkPath = Inr fs1 \<and> Symlink_at fs1 linkDest linkPath = Inr fs2 \<longrightarrow>
      createLink fs linkPath linkDest = (None, fs2))
   \<and> (Lstat fs linkPath = Inr (Symlink lnDest) \<and> lnDest \<noteq> linkDest
        \<and> parent_error fs linkPath = None \<longrightarrow>
      createLink fs linkPath linkDest =
        (None, fs\<lparr>entries := AList.update linkPath (Symlink linkDest)
                               (AList.delete linkPath (entries fs))\<rparr>))
   \<and> (Lstat fs linkPath = Inl ENOENT \<and> Symlink_at fs linkDest linkPath = Inr fs2 \<longrightarrow>
      createLink fs linkPath linkDest = (None, fs2))
   \<and> (Lstat fs linkPath = Inl ENOENT \<and> parent_error fs linkPath = None \<longrightarrow>
      createLink fs linkPath linkDest =
        (None, fs\<lparr>entries := AList.update linkPath (Symlink linkDest) (entries fs)\<rparr>))
   \<and> (Lstat fs linkPath = Inl ENOENT \<and> parent_error fs linkPath = Some err \<longrightarrow>
      createLink fs linkPath linkDest = (Some (CreateSymlinkFailed err), fs))
   \<and> (createLink fs linkPath linkDest = (None, fs') \<longrightarrow>
        Lstat fs' linkPath = Inr (Symlink linkDest)
      \<and> (\<forall>q. q \<noteq> linkPath \<longrightarrow> Lstat fs' q = Lstat fs q))"
proof (intro conjI impI)
  assume "Lstat fs linkPath = Inr Directory"
  then show "createLink fs linkPath linkDest = (Some (IsDirectory linkPath), fs)"
    by (simp add: createLink_def)
next
  assume "Lstat fs linkPath = Inr NamedPipe"
  then show "createLink fs linkPath linkDest = (Some (IsNamedPipe linkPath), fs)"
    by (simp add: createLink_def)
next
  assume "Lstat fs linkPath = Inr (Regular i) \<and> Remove fs linkPath = Inr fs1
        \<and> Symlink_at fs1 linkDest linkPath = Inr fs2"
  then show "createLink fs linkPath linkDest = (None, fs2)"
    by (simp add: createLink_def)
next
  assume a: "Lstat fs linkPath = Inr (Regular i) \<and> parent_error fs linkPath = None"
  then have "map_of (entries fs) linkPath = Some (Regular i)"
    by (simp add: Lstat_Inr_iff)
  from relink(1) [OF this _ conjunct2 [OF a]]
    relink(2) [OF this _ conjunct2 [OF a], where d = linkDest] a
  show "createLink fs linkPath linkDest =
        (None, fs\<lparr>entries := AList.update linkPath (Symlink linkDest)
                               (AList.delete linkPath (entries fs))\<rparr>)"
    by (simp add: createLink_def)
next
  assume a: "Lstat fs linkPath = Inr (Symlink linkDest)"
  then have "map_of (entries fs) linkPath = Some (Symlink linkDest)"
    by (simp add: Lstat_Inr_iff)
  then show "createLink fs linkPath linkDest = (None, fs)"
    using a by (simp add: createLink_def recreateLink_def Readlink_def)
next
  assume a: "Lstat fs linkPath = Inr (Symlink lnDest) \<and> lnDest \<noteq> linkDest
        \<and> Remove fs linkPath = Inr fs1 \<and> Symlink_at fs1 linkDest linkPath = Inr fs2"
  then have "map_of (entries fs) linkPath = Some (Symlink lnDest)"
    by (simp add: Lstat_Inr_iff)
  then show "createLink fs linkPath linkDest = (None, fs2)"
    using a by (auto simp: createLink_def recreateLink_def Readlink_def)
next
  assume a: "Lstat fs linkPath = Inr (Symlink lnDest) \<and> lnDest \<noteq> linkDest
        \<and> parent_error fs linkPath = None"
  then have m: "map_of (entries fs) linkPath = Some (Symlink lnDest)"
    by (simp add: Lstat_Inr_iff)
  from a have p: "parent_error fs linkPath = None" by simp
  from relink(1) [OF m _ p] relink(2) [OF m _ p, where d = linkDest] a m
  show "createLink fs linkPath linkDest =
        (None, fs\<lparr>entries := AList.update linkPath (Symlink linkDest)
                               (AList.delete linkPath (entries fs))\<rparr>)"
    by (auto simp: createLink_def recreateLink_def Readlink_def)
next
  assume "Lstat fs linkPath = Inl ENOENT \<and> Symlink_at fs linkDest linkPath = Inr fs2"
  then show "createLink fs linkPath linkDest = (None, fs2)"
    by (simp add: createLink_def)
next
  assume a: "Lstat fs linkPath = Inl ENOENT \<and> parent_error fs linkPath = None"
  then have "map_of (entries fs) linkPath = None"
    by (simp add: Lstat_Inl_iff)
  then show "createLink fs linkPath linkDest =
        (None, fs\<lparr>entries := AList.update linkPath (Symlink linkDest) (entries fs)\<rparr>)"
    using a by (simp add: createLink_def Symlink_at_absent)
next
  assume a: "Lstat fs linkPath = Inl ENOENT \<and> parent_error fs linkPath = Some err"
  then have "map_of (entries fs) linkPath = None"
    by (simp add: Lstat_Inl_iff)
  then show "createLink fs linkPath linkDest = (Some (CreateSymlinkFailed err), fs)"
    using a by (simp add: createLink_def Symlink_at_no_parent)
next
  assume "createLink fs linkPath linkDest = (None, fs')"
  from createLink_success [OF this]
  show "Lstat fs' linkPath = Inr (Symlink linkDest)"
    by (simp add: Lstat_def)
next
  assume "createLink fs linkPath linkDest = (None, fs')"
  from createLink_success [OF this]
  show "\<forall>q. q \<noteq> linkPath \<longrightarrow> Lstat fs' q = Lstat fs q"
    by (simp add: Lstat_def)
qed

lemma fs_bin_kinds_parent:
  "parent_error fs_bin_kinds ''/r/bin/file'' = None"
  "parent_error fs_bin_kinds ''/r/bin/stale'' = None"
  "parent_error fs_bin_kinds ''/r/bin/new'' = None"
  "parent_error fs_bin_kinds ''/r/nodir/new'' = Some ENOENT"
  by (simp_all add: parent_error_def fs_bin_kinds_def filepath_Dir_def filepath_Clean_def)

lemma fs_bin_kinds_Lstat:
  "Lstat fs_bin_kinds ''/r/bin/dir'' = Inr Directory"
  "Lstat fs_bin_kinds ''/r/bin/pipe'' = Inr NamedPipe"
  "Lstat fs_bin_kinds ''/r/bin/same'' = Inr (Symlink ''../aqua-proxy'')"
  "Lstat fs_bin_kinds ''/r/bin/file'' = Inr (Regular 1)"
  "Lstat fs_bin_kinds ''/r/bin/stale'' = Inr (Symlink ''../old-proxy'')"
  "Lstat fs_bin_kinds ''/r/bin/new'' = Inl ENOENT"
  "Lstat fs_bin_kinds ''/r/nodir/new'' = Inl ENOENT"
  by (simp_all add: Lstat_def fs_bin_kinds_def)

theorem createLink_cases_witness:
  "createLink fs_bin_kinds ''/r/bin/dir'' ''../aqua-proxy''
     = (Some (IsDirectory ''/r/bin/dir''), fs_bin_kinds)
   \<and> createLink fs_bin_kinds ''/r/bin/pipe'' ''../aqua-proxy''
     = (Some (IsNamedPipe ''/r/bin/pipe''), fs_bin_kinds)
   \<and> createLink fs_bin_kinds ''/r/bin/same'' ''../aqua-proxy'' = (None, fs_bin_kinds)
   \<and> fst (createLink fs_bin_kinds ''/r/bin/file'' ''../aqua-proxy'') = None
   \<and> Lstat (snd (createLink fs_bin_kinds ''/r/bin/file'' ''../aqua-proxy'')) ''/r/bin/file''
     = Inr (Symlink ''../aqua-proxy'')
   \<and> fst (createLink fs_bin_kinds ''/r/bin/stale'' ''../aqua-proxy'') = None
   \<and> Lstat (snd (createLink fs_bin_kinds ''/r/bin/stale'' ''../aqua-proxy'')) ''/r/bin/stale''
     = Inr (Symlink ''../aqua-proxy'')
   \<and> fst (createLink fs_bin_kinds ''/r/bin/new'' ''../aqua-proxy'') = None
   \<and> Lstat (snd (createLink fs_bin_kinds ''/r/bin/new'' ''../aqua-proxy'')) ''/r/bin/new''
     = Inr (Symlink ''../aqua-proxy'')
   \<and> createLink fs_bin_kinds ''/r/nodir/new'' ''../aqua-proxy''
     = (Some (CreateSymlinkFailed ENOENT), fs_bin_kinds)"
  using createLink_cases [where fs = fs_bin_kinds and linkPath = "''/r/bin/dir''"
      and linkDest = "''../aqua-proxy''"]
    createLink_cases [where fs = fs_bin_kinds and linkPath = "''/r/bin/pipe''"
      and linkDest = "''../aqua-proxy''"]
    createLink_cases [where fs = fs_bin_kinds and linkPath = "''/r/bin/same''"
      and linkDest = "''../aqua-proxy''"]
    createLink_cases [where fs = fs_bin_kinds and linkPath = "''/r/bin/file''"
      and linkDest = "''../aqua-proxy''" and i = 1]
    createLink_cases [where fs = fs_bin_kinds and linkPath = "''/r/bin/stale''"
      and linkDest = "''../aqua-proxy''" and lnDest = "''../old-proxy''"]
    createLink_cases [where fs = fs_bin_kinds and linkPath = "''/r/bin/new''"
      and linkDest = "''../aqua-proxy''"]
    createLink_cases [where fs = fs_bin_kinds and linkPath = "''/r/nodir/new''"
      and linkDest = "''../aqua-proxy''" and err = ENOENT]
  by (simp add: fs_bin_kinds_parent fs_bin_kinds_Lstat)

subsection \<open>Shim links and the migration to hard links\<close>

lemma createHardLink_success:
  assumes "createHardLink fs p d = (None, fs')"
  shows "\<exists>e. map_of (entries fs) d = Some e \<and> e \<noteq> Directory
           \<and> map_of (entries fs) p = None
           \<and> map_of (entries fs') = (map_of (entries fs))(p \<mapsto> e)"
  using assms Hardlink_Inr [of fs d p]
  by (auto simp: createHardLink_def split: sum.splits)

text \<open>Once a link has failed, the flag stays set.\<close>

lemma createLinks_files_failed:
  "fst (createLinks_files is files (True, fs)) = True"
  by (induction files arbitrary: fs) (auto split: prod.splits option.splits)

lemma createLinks_pkgs_failed:
  "fst st = True \<Longrightarrow> fst (createLinks_pkgs is pkgs st) = True"
proof (induction pkgs arbitrary: st)
  case Nil
  then show ?case by simp
next
  case (Cons pkg pkgs)
  obtain fs where "st = (True, fs)" using Cons.prems by (cases st) auto
  then show ?case
    using Cons.IH [of "createLinks_files is (GetFiles pkg) (True, fs)"]
    by (simp add: createLinks_files_failed)
qed

text \<open>Off Windows: every file that was linked is a symbolic link to the proxy afterwards.\<close>

lemma createLinks_files_symlinks:
  assumes "\<not> isWindows (GOOS is)"
    and "createLinks_files is files (failed, fs) = (False, fs')"
  shows "failed = False
    \<and> (\<forall>file \<in> set files.
          links_to fs' (filepath_Join [''..'', proxyName])
            (filepath_Join [rootDir is, ''bin'', file_Name file]))
    \<and> (\<forall>q. links_to fs (filepath_Join [''..'', proxyName]) q
          \<longrightarrow> links_to fs' (filepath_Join [''..'', proxyName]) q)"
  using assms(2)
proof (induction files arbitrary: failed fs)
  case Nil
  then show ?case by simp
next
  case (Cons fl files)
  let ?p = "filepath_Join [rootDir is, ''bin'', file_Name fl]"
  let ?d = "filepath_Join [''..'', proxyName]"
  obtain err fs1 where step: "createLink fs ?p ?d = (err, fs1)"
    by (cases "createLink fs ?p ?d")
  show ?case
  proof (cases err)
    case (Some e)
    with Cons.prems step assms(1)
    have "createLinks_files is files (True, fs1) = (False, fs')" by simp
    then have "fst (createLinks_files is files (True, fs1)) = False" by simp
    then show ?thesis by (simp add: createLinks_files_failed)
  next
    case None
    with Cons.prems step assms(1)
    have rest: "createLinks_files is files (failed, fs1) = (False, fs')" by simp
    from step None have m: "map_of (entries fs1) = (map_of (entries fs))(?p \<mapsto> Symlink ?d)"
      by (simp add: createLink_success)
    from Cons.IH [OF rest] m show ?thesis
      by (auto simp: links_to_def)
  qed
qed

lemma createLinks_pkgs_symlinks:
  assumes "\<not> isWindows (GOOS is)"
    and "createLinks_pkgs is pkgs (failed, fs) = (False, fs')"
  shows "failed = False
    \<and> (\<forall>pkg \<in> set pkgs. \<forall>file \<in> set (GetFiles pkg).
          links_to fs' (filepath_Join [''..'', proxyName])
            (filepath_Join [rootDir is, ''bin'', file_Name file]))
    \<and> (\<forall>q. links_to fs (filepath_Join [''..'', proxyName]) q
          \<longrightarrow> links_to fs' (filepath_Join [''..'', proxyName]) q)"
  using assms(2)
proof (induction pkgs arbitrary: failed fs)
  case Nil
  then show ?case by simp
next
  case (Cons pkg pkgs)
  obtain f1 fs1 where step: "createLinks_files is (GetFiles pkg) (failed, fs) = (f1, fs1)"
    by (cases "createLinks_files is (GetFiles pkg) (failed, fs)")
  with Cons.prems have rest: "createLinks_pkgs is pkgs (f1, fs1) = (False, fs')" by simp
  from Cons.IH [OF rest] have f1: "f1 = False"
    and later: "\<forall>pkg \<in> set pkgs. \<forall>file \<in> set (GetFiles pkg).
          links_to fs' (filepath_Join [''..'', proxyName])
            (filepath_Join [rootDir is, ''bin'', file_Name file])"
    and keep: "\<forall>q. links_to fs1 (filepath_Join [''..'', proxyName]) q
          \<longrightarrow> links_to fs' (filepath_Join [''..'', proxyName]) q"
    by blast+
  from createLinks_files_symlinks [OF assms(1) step [unfolded f1]]
  show ?case using later keep by auto
qed

text \<open>On Windows: every file that was linked has the proxy's entry afterwards.\<close>

lemma createLinks_files_hardlinks:
  assumes "isWindows (GOOS is)"
    and "createLinks_files is files (failed, fs) = (False, fs')"
  shows "failed = False
    \<and> (\<forall>file \<in> set files. \<exists>e. e \<noteq> Directory
          \<and> map_of (entries fs) (filepath_Join [rootDir is, proxyName @ ''.exe'']) = Some e
          \<and> map_of (entries fs')
               (filepath_Join [rootDir is, ''bin'', file_Name file @ ''.exe'']) = Some e)
    \<and> (\<forall>q e. map_of (entries fs) q = Some e \<longrightarrow> map_of (entries fs') q = Some e)"
  using assms(2)
proof (induction files arbitrary: failed fs)
  case Nil
  then show ?case by simp
next
  case (Cons fl files)
  let ?p = "filepath_Join [rootDir is, ''bin'', file_Name fl @ ''.exe'']"
  let ?d = "filepath_Join [rootDir is, proxyName @ ''.exe'']"
  obtain err fs1 where step: "createHardLink fs ?p ?d = (err, fs1)"
    by (cases "createHardLink fs ?p ?d")
  show ?case
  proof (cases err)
    case (Some e)
    with Cons.prems step assms(1)
    have "createLinks_files is files (True, fs1) = (False, fs')" by simp
    then have "fst (createLinks_files is files (True, fs1)) = False" by simp
    then show ?thesis by (simp add: createLinks_files_failed)
  next
    case None
    with Cons.prems step assms(1)
    have rest: "createLinks_files is files (failed, fs1) = (False, fs')" by simp
    from step None obtain e where e: "map_of (entries fs) ?d = Some e" "e \<noteq> Directory"
      "map_of (entries fs) ?p = None"
      "map_of (entries fs1) = (map_of (entries fs))(?p \<mapsto> e)"
      using createHardLink_success by blast
    have grow: "\<And>q x. map_of (entries fs) q = Some x \<Longrightarrow> map_of (entries fs1) q = Some x"
      using e by auto
    from Cons.IH [OF rest] have IH1: "failed = False"
      and IH2: "\<forall>file \<in> set files. \<exists>e. e \<noteq> Directory
          \<and> map_of (entries fs1) ?d = Some e
          \<and> map_of (entries fs')
               (filepath_Join [rootDir is, ''bin'', file_Name file @ ''.exe'']) = Some e"
      and IH3: "\<forall>q e. map_of (entries fs1) q = Some e \<longrightarrow> map_of (entries fs') q = Some e"
      by blast+
    have d1: "map_of (entries fs1) ?d = Some e" using grow e(1) by blast
    have "map_of (entries fs1) ?p = Some e" using e(4) by simp
    then have here: "map_of (entries fs') ?p = Some e" using IH3 by blast
    show ?thesis
    proof (intro conjI ballI allI impI)
      show "failed = False" by (rule IH1)
    next
      fix f assume "f \<in> set (fl # files)"
      then consider "f = fl" | "f \<in> set files" by auto
      then show "\<exists>e. e \<noteq> Directory \<and> map_of (entries fs) ?d = Some e
          \<and> map_of (entries fs') (filepath_Join [rootDir is, ''bin'', file_Name f @ ''.exe'']) = Some e"
      proof cases
        case 1
        then show ?thesis using e(1,2) here by auto
      next
        case 2
        with IH2 d1 e(1,2) show ?thesis by auto
      qed
    next
      fix q x assume "map_of (entries fs) q = Some x"
      then show "map_of (entries fs') q = Some x" using grow IH3 by blast
    qed
  qed
qed

lemma createLinks_pkgs_hardlinks:
  assumes "isWindows (GOOS is)"
    and "createLinks_pkgs is pkgs (failed, fs) = (False, fs')"
  shows "failed = False
    \<and> (\<forall>pkg \<in> set pkgs. \<forall>file \<in> set (GetFiles pkg). \<exists>e. e \<noteq> Directory
          \<and> map_of (entries fs) (filepath_Join [rootDir is, proxyName @ ''.exe'']) = Some e
          \<and> map_of (entries fs')
               (filepath_Join [rootDir is, ''bin'', file_Name file @ ''.exe'']) = Some e)
    \<and> (\<forall>q e. map_of (entries fs) q = Some e \<longrightarrow> map_of (entries fs') q = Some e)"
  using assms(2)
proof (induction pkgs arbitrary: failed fs)
  case Nil
  then show ?case by simp
next
  case (Cons pkg pkgs)
  obtain f1 fs1 where step: "createLinks_files is (GetFiles pkg) (failed, fs) = (f1, fs1)"
    by (cases "createLinks_files is (GetFiles pkg) (failed, fs)")
  with Cons.prems have rest: "createLinks_pkgs is pkgs (f1, fs1) = (False, fs')" by simp
  from Cons.IH [OF rest] have f1: "f1 = False"
    and later: "\<forall>pkg \<in> set pkgs. \<forall>file \<in> set (GetFiles pkg). \<exists>e. e \<noteq> Directory
          \<and> map_of (entries fs1) (filepath_Join [rootDir is, proxyName @ ''.exe'']) = Some e
          \<and> map_of (entries fs')
               (filepath_Join [rootDir is, ''bin'', file_Name file @ ''.exe'']) = Some e"
    and keep: "\<forall>q e. map_of (entries fs1) q = Some e \<longrightarrow> map_of (entries fs') q = Some e"
    by blast+
  from createLinks_files_hardlinks [OF assms(1) step [unfolded f1]]
  have a1: "failed = False"
    and a2: "\<forall>file \<in> set (GetFiles pkg). \<exists>e. e \<noteq> Directory
          \<and> map_of (entries fs) (filepath_Join [rootDir is, proxyName @ ''.exe'']) = Some e
          \<and> map_of (entries fs1)
               (filepath_Join [rootDir is, ''bin'', file_Name file @ ''.exe'']) = Some e"
    and a3: "\<forall>q e. map_of (entries fs) q = Some e \<longrightarrow> map_of (entries fs1) q = Some e"
    by blast+
  show ?case
  proof (intro conjI ballI allI impI)
    show "failed = False" by (rule a1)
  next
    fix p f assume p: "p \<in> set (pkg # pkgs)" and f: "f \<in> set (GetFiles p)"
    from p consider "p = pkg" | "p \<in> set pkgs" by auto
    then show "\<exists>e. e \<noteq> Directory
          \<and> map_of (entries fs) (filepath_Join [rootDir is, proxyName @ ''.exe'']) = Some e
          \<and> map_of (entries fs')
               (filepath_Join [rootDir is, ''bin'', file_Name f @ ''.exe'']) = Some e"
    proof cases
      case 1
      with a2 f keep show ?thesis by blast
    next
      case 2
      with later f obtain e where e: "e \<noteq> Directory"
        "map_of (entries fs1) (filepath_Join [rootDir is, proxyName @ ''.exe'']) = Some e"
        "map_of (entries fs') (filepath_Join [rootDir is, ''bin'', file_Name f @ ''.exe'']) = Some e"
        by blast
      show ?thesis
      proof (cases "map_of (entries fs) (filepath_Join [rootDir is, proxyName @ ''.exe''])")
        case None
        with a2 have "GetFiles pkg = []" by (cases "GetFiles pkg") auto
        with step have "fs1 = fs" by simp
        with e None show ?thesis by simp
      next
        case (Some x)
        with a3 e show ?thesis by auto
      qed
    qed
  next
    fix q x assume "map_of (entries fs) q = Some x"
    then show "map_of (entries fs') q = Some x" using a3 keep by blast
  qed
qed

lemma replace_entries_success:
  assumes "replace_entries fs b proxy names = (None, fs')"
  shows "(names \<noteq> [] \<longrightarrow> (\<exists>e. e \<noteq> Directory \<and> map_of (entries fs) proxy = Some e))
       \<and> map_of (entries fs') proxy = map_of (entries fs) proxy
       \<and> (\<forall>n \<in> set names. map_of (entries fs') (filepath_Join [b, n]) = map_of (entries fs) proxy)
       \<and> (\<forall>q. q \<notin> (\<lambda>n. filepath_Join [b, n]) ` set names
             \<longrightarrow> map_of (entries fs') q = map_of (entries fs) q)"
  using assms
proof (induction names arbitrary: fs)
  case Nil
  then show ?case by simp
next
  case (Cons n ns)
  let ?p = "filepath_Join [b, n]"
  from Cons.prems obtain fs1 where r: "Remove fs ?p = Inr fs1"
    by (auto simp: Let_def split: sum.splits)
  with Cons.prems obtain fs2 where h: "Hardlink fs1 proxy ?p = Inr fs2"
    by (auto simp: Let_def split: sum.splits)
  with r Cons.prems have rest: "replace_entries fs2 b proxy ns = (None, fs')"
    by (simp add: Let_def)
  have m1: "map_of (entries fs1) = (map_of (entries fs))(?p := None)"
    by (rule Remove_Inr(1) [OF r])
  from Hardlink_Inr(1) [OF h] obtain e where e: "map_of (entries fs1) proxy = Some e"
    "e \<noteq> Directory" "map_of (entries fs2) = (map_of (entries fs1))(?p \<mapsto> e)"
    by blast
  have ne: "proxy \<noteq> ?p" using e(1) m1 by auto
  have mp: "map_of (entries fs) proxy = Some e" using e(1) m1 ne by auto
  have m2p: "map_of (entries fs2) proxy = Some e" using e ne by auto
  from Cons.IH [OF rest] have
    IH2: "map_of (entries fs') proxy = map_of (entries fs2) proxy"
    and IH3: "\<forall>k \<in> set ns. map_of (entries fs') (filepath_Join [b, k]) = map_of (entries fs2) proxy"
    and IH4: "\<forall>q. q \<notin> (\<lambda>k. filepath_Join [b, k]) ` set ns
             \<longrightarrow> map_of (entries fs') q = map_of (entries fs2) q"
    by blast+
  have here: "map_of (entries fs') ?p = Some e"
  proof (cases "?p \<in> (\<lambda>k. filepath_Join [b, k]) ` set ns")
    case True
    then show ?thesis using IH3 m2p by auto
  next
    case False
    then show ?thesis using IH4 e(3) by simp
  qed
  show ?case
  proof (intro conjI impI ballI allI)
    show "\<exists>e. e \<noteq> Directory \<and> map_of (entries fs) proxy = Some e" using mp e(2) by blast
  next
    show "map_of (entries fs') proxy = map_of (entries fs) proxy" using IH2 m2p mp by simp
  next
    fix k assume "k \<in> set (n # ns)"
    then show "map_of (entries fs') (filepath_Join [b, k]) = map_of (entries fs) proxy"
      using here IH3 m2p mp by auto
  next
    fix q assume "q \<notin> (\<lambda>k. filepath_Join [b, k]) ` set (n # ns)"
    then have "q \<noteq> ?p" "q \<notin> (\<lambda>k. filepath_Join [b, k]) ` set ns" by auto
    then show "map_of (entries fs') q = map_of (entries fs) q"
      using IH4 e(3) m1 by simp
  qed
qed

lemma replaceWithHardlinks_done:
  assumes "Exists fs (filepath_Join [rootDir is, ''hardlink'']) = Inr True"
  shows "replaceWithHardlinks is fs = (None, fs)"
  using assms by (simp add: replaceWithHardlinks_def)

lemma replaceWithHardlinks_success:
  assumes absent: "Exists fs (filepath_Join [rootDir is, ''hardlink'']) = Inr False"
    and ok: "replaceWithHardlinks is fs = (None, fs')"
  shows "Exists fs' (filepath_Join [rootDir is, ''hardlink'']) = Inr True"
    and "ReadDir fs (filepath_Join [rootDir is, ''bin'']) = Inr names \<Longrightarrow> name \<in> set names \<Longrightarrow>
         \<exists>e. e \<noteq> Directory
           \<and> Lstat fs (filepath_Join [rootDir is, ''aqua-proxy'']) = Inr e
           \<and> Lstat fs' (filepath_Join [rootDir is, ''aqua-proxy'']) = Inr e
           \<and> Lstat fs' (filepath_Join [filepath_Join [rootDir is, ''bin''], name]) = Inr e"
proof -
  let ?flag = "filepath_Join [rootDir is, ''hardlink'']"
  let ?bin = "filepath_Join [rootDir is, ''bin'']"
  let ?proxy = "filepath_Join [rootDir is, ''aqua-proxy'']"
  from absent ok obtain infos where rd: "ReadDir fs ?bin = Inr infos"
    by (auto simp: replaceWithHardlinks_def Let_def split: sum.splits)
  from absent ok rd obtain fs1 where loop: "replace_entries fs ?bin ?proxy infos = (None, fs1)"
    by (auto simp: replaceWithHardlinks_def Let_def split: sum.splits prod.splits option.splits)
  with absent ok rd have cr: "Create fs1 ?flag = Inr fs'"
    by (auto simp: replaceWithHardlinks_def Let_def split: sum.splits)
  show "Exists fs' ?flag = Inr True" using cr by (rule Create_Exists)
  assume "ReadDir fs ?bin = Inr names" and n: "name \<in> set names"
  with rd have nn: "infos \<noteq> []" "name \<in> set infos" by auto
  from replace_entries_success [OF loop] nn obtain e where e: "e \<noteq> Directory"
    "map_of (entries fs) ?proxy = Some e" "map_of (entries fs1) ?proxy = Some e"
    "map_of (entries fs1) (filepath_Join [?bin, name]) = Some e"
    by auto
  from Create_keeps [OF cr e(3)] Create_keeps [OF cr e(4)] e(1,2)
  show "\<exists>e. e \<noteq> Directory
           \<and> Lstat fs ?proxy = Inr e \<and> Lstat fs' ?proxy = Inr e
           \<and> Lstat fs' (filepath_Join [?bin, name]) = Inr e"
    by (auto simp: Lstat_Inr_iff)
qed

lemma proxy_link_target: "filepath_Join [''..'', proxyName] = ''../aqua-proxy''"
  by (simp add: filepath_Join_def filepath_Clean_def proxyName_def)

text \<open>The scenarios, computed.\<close>

lemma linux_eval:
  "isWindows (GOOS installer_linux) = False"
  "fst (createLinks installer_linux fs_linux_migrated pkgs_gh) = False"
  "filepath_Join [rootDir installer_linux, ''bin'', ''gh''] = ''/root/.aqua/bin/gh''"
  "Exists fs_linux_migrated (filepath_Join [rootDir installer_linux, ''hardlink'']) = Inr True"
  by code_simp+

lemma windows_eval:
  "isWindows (GOOS installer_windows) = True"
  "fst (createLinks installer_windows fs_windows pkgs_gh) = False"
  "filepath_Join [rootDir installer_windows, ''bin'', ''gh.exe''] = ''/root/.aqua/bin/gh.exe''"
  "filepath_Join [rootDir installer_windows, ''aqua-proxy.exe''] = ''/root/.aqua/aqua-proxy.exe''"
  "Lstat fs_windows ''/root/.aqua/aqua-proxy.exe'' = Inr (Regular 1)"
  by code_simp+

lemma migration_eval:
  "filepath_Join [rootDir installer_linux, ''hardlink''] = ''/root/.aqua/hardlink''"
  "filepath_Join [rootDir installer_linux, ''bin''] = ''/root/.aqua/bin''"
  "filepath_Join [rootDir installer_linux, ''aqua-proxy''] = ''/root/.aqua/aqua-proxy''"
  "filepath_Join [''/root/.aqua/bin'', ''gh''] = ''/root/.aqua/bin/gh''"
  "filepath_Join [''/root/.aqua/bin'', ''jq''] = ''/root/.aqua/bin/jq''"
  "Exists fs_before_migration ''/root/.aqua/hardlink'' = Inr False"
  "ReadDir fs_before_migration ''/root/.aqua/bin'' = Inr [''gh'', ''jq'']"
  "fst (replaceWithHardlinks installer_linux fs_before_migration) = None"
  "Lstat fs_before_migration ''/root/.aqua/aqua-proxy'' = Inr (Regular 1)"
  by code_simp+

lemma pkgs_gh_eval:
  "\<lparr>GetFiles = [\<lparr>file_Name = ''gh''\<rparr>]\<rparr> \<in> set pkgs_gh"
  by (simp add: pkgs_gh_def)

text \<open>
  Claim C2, as stated, on Linux with the sentinel \<open>/root/.aqua/hardlink\<close> present: linking
  the file \<open>gh\<close> succeeds and leaves \<open>/root/.aqua/bin/gh\<close> a symbolic link to
  \<open>../aqua-proxy\<close>, not a hard link to the proxy (inode 1).
\<close>

theorem shim_links_on_linux_counterexample:
  "Exists fs_linux_migrated (filepath_Join [rootDir installer_linux, ''hardlink'']) = Inr True
   \<and> \<not> isWindows (GOOS installer_linux)
   \<and> fst (createLinks installer_linux fs_linux_migrated pkgs_gh) = False
   \<and> Lstat (snd (createLinks installer_linux fs_linux_migrated pkgs_gh)) ''/root/.aqua/bin/gh''
        = Inr (Symlink ''../aqua-proxy'')
   \<and> Lstat (snd (createLinks installer_linux fs_linux_migrated pkgs_gh)) ''/root/.aqua/aqua-proxy''
        = Inr (Regular 1)"
  by code_simp

text \<open>
  Claim C2, amended. Creating shim links does not look at the sentinel; the platform alone
  decides. Off Windows, when no link fails, every file of every package has a symbolic
  link \<open><root>/bin/<name>\<close> to \<open>../aqua-proxy\<close>; on Windows, when no link fails, it has a
  hard link \<open><root>/bin/<name>.exe\<close> to \<open><root>/aqua-proxy.exe\<close>. The one-time migration
  returns at once and changes nothing when the sentinel \<open><root>/hardlink\<close> is present.
  When the sentinel is absent and the migration succeeds, the sentinel exists afterwards
  and every entry that was in \<open><root>/bin\<close> is a hard link to \<open><root>/aqua-proxy\<close>.
\<close>

theorem shim_links_and_migration:
  "(\<not> isWindows (GOOS inst) \<and> createLinks inst fs pkgs = (False, fs')
      \<and> pkg \<in> set pkgs \<and> fl \<in> set (GetFiles pkg) \<longrightarrow>
        Lstat fs' (filepath_Join [rootDir inst, ''bin'', file_Name fl])
          = Inr (Symlink ''../aqua-proxy''))
   \<and> (isWindows (GOOS inst) \<and> createLinks inst fs pkgs = (False, fs')
      \<and> pkg \<in> set pkgs \<and> fl \<in> set (GetFiles pkg) \<longrightarrow>
        (\<exists>e. e \<noteq> Directory
           \<and> Lstat fs (filepath_Join [rootDir inst, ''aqua-proxy.exe'']) = Inr e
           \<and> Lstat fs' (filepath_Join [rootDir inst, ''aqua-proxy.exe'']) = Inr e
           \<and> Lstat fs' (filepath_Join [rootDir inst, ''bin'', file_Name fl @ ''.exe'']) = Inr e))
   \<and> (Exists fs (filepath_Join [rootDir inst, ''hardlink'']) = Inr True \<longrightarrow>
        replaceWithHardlinks inst fs = (None, fs))
   \<and> (Exists fs (filepath_Join [rootDir inst, ''hardlink'']) = Inr False
      \<and> replaceWithHardlinks inst fs = (None, fs'') \<longrightarrow>
        Exists fs'' (filepath_Join [rootDir inst, ''hardlink'']) = Inr True)
   \<and> (Exists fs (filepath_Join [rootDir inst, ''hardlink'']) = Inr False
      \<and> replaceWithHardlinks inst fs = (None, fs'')
      \<and> ReadDir fs (filepath_Join [rootDir inst, ''bin'']) = Inr names \<and> name \<in> set names \<longrightarrow>
        (\<exists>e. e \<noteq> Directory
           \<and> Lstat fs (filepath_Join [rootDir inst, ''aqua-proxy'']) = Inr e
           \<and> Lstat fs'' (filepath_Join [rootDir inst, ''aqua-proxy'']) = Inr e
           \<and> Lstat fs'' (filepath_Join [filepath_Join [rootDir inst, ''bin''], name]) = Inr e))"
proof (intro conjI impI)
  assume a: "\<not> isWindows (GOOS inst) \<and> createLinks inst fs pkgs = (False, fs')
      \<and> pkg \<in> set pkgs \<and> fl \<in> set (GetFiles pkg)"
  then have "createLinks_pkgs inst pkgs (False, fs) = (False, fs')"
    by (simp add: createLinks_def)
  from createLinks_pkgs_symlinks [OF _ this] a
  have "links_to fs' (filepath_Join [''..'', proxyName])
          (filepath_Join [rootDir inst, ''bin'', file_Name fl])"
    by blast
  then show "Lstat fs' (filepath_Join [rootDir inst, ''bin'', file_Name fl])
          = Inr (Symlink ''../aqua-proxy'')"
    by (simp add: links_to_def Lstat_Inr_iff proxy_link_target)
next
  assume a: "isWindows (GOOS inst) \<and> createLinks inst fs pkgs = (False, fs')
      \<and> pkg \<in> set pkgs \<and> fl \<in> set (GetFiles pkg)"
  then have "createLinks_pkgs inst pkgs (False, fs) = (False, fs')"
    by (simp add: createLinks_def)
  from createLinks_pkgs_hardlinks [OF _ this] a
  obtain e where e: "e \<noteq> Directory"
    "map_of (entries fs) (filepath_Join [rootDir inst, proxyName @ ''.exe'']) = Some e"
    "map_of (entries fs') (filepath_Join [rootDir inst, ''bin'', file_Name fl @ ''.exe'']) = Some e"
    and keep: "\<forall>q e. map_of (entries fs) q = Some e \<longrightarrow> map_of (entries fs') q = Some e"
    by blast
  from keep e(2) have "map_of (entries fs') (filepath_Join [rootDir inst, proxyName @ ''.exe'']) = Some e"
    by blast
  with e show "\<exists>e. e \<noteq> Directory
           \<and> Lstat fs (filepath_Join [rootDir inst, ''aqua-proxy.exe'']) = Inr e
           \<and> Lstat fs' (filepath_Join [rootDir inst, ''aqua-proxy.exe'']) = Inr e
           \<and> Lstat fs' (filepath_Join [rootDir inst, ''bin'', file_Name fl @ ''.exe'']) = Inr e"
    by (auto simp: Lstat_Inr_iff proxyName_def)
next
  assume "Exists fs (filepath_Join [rootDir inst, ''hardlink'']) = Inr True"
  then show "replaceWithHardlinks inst fs = (None, fs)"
    by (rule replaceWithHardlinks_done)
next
  assume "Exists fs (filepath_Join [rootDir inst, ''hardlink'']) = Inr False
      \<and> replaceWithHardlinks inst fs = (None, fs'')"
  then show "Exists fs'' (filepath_Join [rootDir inst, ''hardlink'']) = Inr True"
    using replaceWithHardlinks_success(1) by blast
next
  assume a: "Exists fs (filepath_Join [rootDir inst, ''hardlink'']) = Inr False
      \<and> replaceWithHardlinks inst fs = (None, fs'')
      \<and> ReadDir fs (filepath_Join [rootDir inst, ''bin'']) = Inr names \<and> name \<in> set names"
  then show "\<exists>e. e \<noteq> Directory
           \<and> Lstat fs (filepath_Join [rootDir inst, ''aqua-proxy'']) = Inr e
           \<and> Lstat fs'' (filepath_Join [rootDir inst, ''aqua-proxy'']) = Inr e
           \<and> Lstat fs'' (filepath_Join [filepath_Join [rootDir inst, ''bin''], name]) = Inr e"
    using replaceWithHardlinks_success(2) by blast
qed

theorem shim_links_and_migration_witness:
  "\<not> isWindows (GOOS installer_linux)
   \<and> fst (createLinks installer_linux fs_linux_migrated pkgs_gh) = False
   \<and> Lstat (snd (createLinks installer_linux fs_linux_migrated pkgs_gh)) ''/root/.aqua/bin/gh''
       = Inr (Symlink ''../aqua-proxy'')
   \<and> isWindows (GOOS installer_windows)
   \<and> fst (createLinks installer_windows fs_windows pkgs_gh) = False
   \<and> Lstat (snd (createLinks installer_windows fs_windows pkgs_gh)) ''/root/.aqua/bin/gh.exe''
       = Inr (Regular 1)
   \<and> replaceWithHardlinks installer_linux fs_linux_migrated = (None, fs_linux_migrated)
   \<and> Exists fs_before_migration ''/root/.aqua/hardlink'' = Inr False
   \<and> ReadDir fs_before_migration ''/root/.aqua/bin'' = Inr [''gh'', ''jq'']
   \<and> fst (replaceWithHardlinks installer_linux fs_before_migration) = None
   \<and> Exists (snd (replaceWithHardlinks installer_linux fs_before_migration))
        ''/root/.aqua/hardlink'' = Inr True
   \<and> Lstat (snd (replaceWithHardlinks installer_linux fs_before_migration)) ''/root/.aqua/bin/gh''
       = Inr (Regular 1)
   \<and> Lstat (snd (replaceWithHardlinks installer_linux fs_before_migration)) ''/root/.aqua/bin/jq''
       = Inr (Regular 1)"
proof -
  have linux: "createLinks installer_linux fs_linux_migrated pkgs_gh
        = (False, snd (createLinks installer_linux fs_linux_migrated pkgs_gh))"
      by (simp add: prod_eq_iff linux_eval)
  have windows: "createLinks installer_windows fs_windows pkgs_gh
        = (False, snd (createLinks installer_windows fs_windows pkgs_gh))"
      by (simp add: prod_eq_iff windows_eval)
  have migration: "replaceWithHardlinks installer_linux fs_before_migration
        = (None, snd (replaceWithHardlinks installer_linux fs_before_migration))"
      by (simp add: prod_eq_iff migration_eval)

  have w1: "Lstat (snd (createLinks installer_linux fs_linux_migrated pkgs_gh)) ''/root/.aqua/bin/gh''
         = Inr (Symlink ''../aqua-proxy'')"
    using shim_links_and_migration [where inst = installer_linux and fs = fs_linux_migrated
          and pkgs = pkgs_gh and pkg = "\<lparr>GetFiles = [\<lparr>file_Name = ''gh''\<rparr>]\<rparr>"
          and fl = "\<lparr>file_Name = ''gh''\<rparr>"
          and fs' = "snd (createLinks installer_linux fs_linux_migrated pkgs_gh)", THEN conjunct1]
      linux [symmetric]
    by (simp add: linux_eval pkgs_gh_eval)

  have w2: "Lstat (snd (createLinks installer_windows fs_windows pkgs_gh)) ''/root/.aqua/bin/gh.exe''
         = Inr (Regular 1)"
    using shim_links_and_migration [where inst = installer_windows and fs = fs_windows
          and pkgs = pkgs_gh and pkg = "\<lparr>GetFiles = [\<lparr>file_Name = ''gh''\<rparr>]\<rparr>"
          and fl = "\<lparr>file_Name = ''gh''\<rparr>"
          and fs' = "snd (createLinks installer_windows fs_windows pkgs_gh)",
          THEN conjunct2, THEN conjunct1]
      windows [symmetric]
    by (simp add: windows_eval pkgs_gh_eval)

  have w3: "replaceWithHardlinks installer_linux fs_linux_migrated = (None, fs_linux_migrated)"
    using shim_links_and_migration [where inst = installer_linux and fs = fs_linux_migrated,
          THEN conjunct2, THEN conjunct2, THEN conjunct1]
    by (simp add: linux_eval)

  have w4: "Exists (snd (replaceWithHardlinks installer_linux fs_before_migration))
          ''/root/.aqua/hardlink'' = Inr True"
    using shim_links_and_migration [where inst = installer_linux and fs = fs_before_migration
          and fs'' = "snd (replaceWithHardlinks installer_linux fs_before_migration)",
          THEN conjunct2, THEN conjunct2, THEN conjunct2, THEN conjunct1]
      migration [symmetric]
    by (simp add: migration_eval)

  have w5: "Lstat (snd (replaceWithHardlinks installer_linux fs_before_migration)) ''/root/.aqua/bin/gh''
         = Inr (Regular 1)"
    using shim_links_and_migration [where inst = installer_linux and fs = fs_before_migration
          and fs'' = "snd (replaceWithHardlinks installer_linux fs_before_migration)"
          and names = "[''gh'', ''jq'']" and name = "''gh''",
          THEN conjunct2, THEN conjunct2, THEN conjunct2, THEN conjunct2]
      migration [symmetric]
    by (simp add: migration_eval)

  have w6: "Lstat (snd (replaceWithHardlinks installer_linux fs_before_migration)) ''/root/.aqua/bin/jq''
         = Inr (Regular 1)"
    using shim_links_and_migration [where inst = installer_linux and fs = fs_before_migration
          and fs'' = "snd (replaceWithHardlinks installer_linux fs_before_migration)"
          and names = "[''gh'', ''jq'']" and name = "''jq''",
          THEN conjunct2, THEN conjunct2, THEN conjunct2, THEN conjunct2]
      migration [symmetric]
    by (simp add: migration_eval)
  show ?thesis
    using w1 w2 w3 w4 w5 w6
    by (simp add: linux_eval windows_eval migration_eval)
qed

section \<open>Properties of the registry installer\<close>

lemma Mkdir_keeps:
  assumes "Mkdir fs p = Inr fs'" "map_of (entries fs) q = Some e"
  shows "map_of (entries fs') q = Some e"
    and "contents fs' = contents fs"
  using assms
  by (auto simp: Mkdir_def update_conv split: option.splits)

lemma MkdirAll_upto_keeps:
  assumes "MkdirAll_upto bound fs p = Inr fs'" "map_of (entries fs) q = Some e"
  shows "map_of (entries fs') q = Some e \<and> contents fs' = contents fs"
  using assms
proof (induction bound arbitrary: fs p fs')
  case Nil
  then show ?case
    by (auto simp: Mkdir_keeps split: sum.splits entry.splits)
next
  case (Cons c bound)
  show ?case
  proof (cases "Stat fs p")
    case (Inr e')
    with Cons.prems show ?thesis by (cases e') auto
  next
    case (Inl err)
    show ?thesis
    proof (cases "filepath_Dir p = p")
      case True
      with Inl Cons.prems show ?thesis by (auto simp: Mkdir_keeps)
    next
      case False
      with Inl Cons.prems obtain fs1 where
        s: "MkdirAll_upto bound fs (filepath_Dir p) = Inr fs1" "Mkdir fs1 p = Inr fs'"
        by (auto split: sum.splits)
      from Cons.IH [OF s(1) Cons.prems(2)] s(2) show ?thesis
        by (auto simp: Mkdir_keeps)
    qed
  qed
qed

lemma MkdirAll_ReadFile:
  assumes "MkdirAll fs p = Inr fs'" "ReadFile fs q = Inr c"
  shows "ReadFile fs' q = Inr c"
proof -
  from assms(1) have k: "map_of (entries fs) x = Some e
      \<Longrightarrow> map_of (entries fs') x = Some e \<and> contents fs' = contents fs" for x e
    by (rule MkdirAll_upto_keeps [of p fs p fs', unfolded MkdirAll_def [symmetric]])
  from assms(2) obtain r i where r: "follow 40 fs q = Inr r"
    "map_of (entries fs) r = Some (Regular i)"
    by (auto simp: ReadFile_def split: sum.splits option.splits entry.splits)
  have "follow 40 fs' q = Inr r"
    using r(1) by (rule follow_grown) (simp_all add: r(2) k)
  with k [OF r(2)] r assms(2) show ?thesis by (simp add: ReadFile_def)
qed

lemma searchPaths_of_eq:
  "searchPaths_of regist =
     (if Path regist = [] then [''registry.yaml'', ''registry.yml''] else [Path regist])"
  by (simp add: searchPaths_of_def)

lemma extractHTTPRegistryArchive_search:
  assumes "tempDir = filepath_Join [filepath_Dir registryFilePath, ''.tmp'']"
    and "tempArchivePath = filepath_Join [tempDir, ''registry.'' @ Format regist]"
    and "extractDir = filepath_Join [tempDir, ''extract'']"
    and "MkdirAll fs tempDir = Inr fs1"
    and "WriteFile fs1 tempArchivePath content = Inr fs2"
    and "MkdirAll fs2 extractDir = Inr fs3"
    and "Unarchive env fs3 tempArchivePath (Format regist) extractDir = Inr fs4"
  shows "extractHTTPRegistryArchive env fs regist registryFilePath content =
     (case find_registry_file fs4 extractDir (searchPaths_of regist) of
        None \<Rightarrow> (Inl (RegistryFileNotFound (searchPaths_of regist)), RemoveAll fs4 tempDir)
      | Some (data, foundPath) \<Rightarrow>
          (case saveHTTPRegistry env fs4 registryFilePath data of
             (result, fs5) \<Rightarrow> (result, RemoveAll fs5 tempDir)))"
  using assms
  by (auto simp: extractHTTPRegistryArchive_def extract_in_tempDir_def Let_def
           split: option.splits prod.splits)

text \<open>
  Claim C8. For an HTTP registry with a format, the installer makes the temporary
  directory \<open>.tmp\<close> beside the registry file, writes the downloaded bytes to
  \<open>.tmp/registry.<format>\<close>, makes \<open>.tmp/extract\<close> and runs the unarchiver on that file,
  which then holds exactly the downloaded bytes. In the extracted tree it reads the
  registry's \<open>path\<close>, and nothing else, when \<open>path\<close> is set; otherwise \<open>registry.yaml\<close> and,
  only if that cannot be read, \<open>registry.yml\<close>. The first file read is saved and parsed
  as the registry; when none can be read the result is the registry-file-not-found
  error, naming the paths searched. The temporary directory is removed in every case.
\<close>

theorem archive_registry_search:
  assumes "tempDir = filepath_Join [filepath_Dir registryFilePath, ''.tmp'']"
    and "tempArchivePath = filepath_Join [tempDir, ''registry.'' @ Format regist]"
    and "extractDir = filepath_Join [tempDir, ''extract'']"
    and "MkdirAll fs tempDir = Inr fs1"
    and "WriteFile fs1 tempArchivePath content = Inr fs2"
    and "MkdirAll fs2 extractDir = Inr fs3"
    and "Unarchive env fs3 tempArchivePath (Format regist) extractDir = Inr fs4"
  shows "ReadFile fs3 tempArchivePath = Inr content
    \<and> (Path regist \<noteq> [] \<and> ReadFile fs4 (filepath_Join [extractDir, Path regist]) = Inr data \<longrightarrow>
          extractHTTPRegistryArchive env fs regist registryFilePath content =
            (case saveHTTPRegistry env fs4 registryFilePath data of
               (result, fs5) \<Rightarrow> (result, RemoveAll fs5 tempDir)))
    \<and> (Path regist \<noteq> [] \<and> ReadFile fs4 (filepath_Join [extractDir, Path regist]) = Inl err \<longrightarrow>
          extractHTTPRegistryArchive env fs regist registryFilePath content =
            (Inl (RegistryFileNotFound [Path regist]), RemoveAll fs4 tempDir))
    \<and> (Path regist = [] \<and> ReadFile fs4 (filepath_Join [extractDir, ''registry.yaml'']) = Inr data \<longrightarrow>
          extractHTTPRegistryArchive env fs regist registryFilePath content =
            (case saveHTTPRegistry env fs4 registryFilePath data of
               (result, fs5) \<Rightarrow> (result, RemoveAll fs5 tempDir)))
    \<and> (Path regist = [] \<and> ReadFile fs4 (filepath_Join [extractDir, ''registry.yaml'']) = Inl err
          \<and> ReadFile fs4 (filepath_Join [extractDir, ''registry.yml'']) = Inr data \<longrightarrow>
          extractHTTPRegistryArchive env fs regist registryFilePath content =
            (case saveHTTPRegistry env fs4 registryFilePath data of
               (result, fs5) \<Rightarrow> (result, RemoveAll fs5 tempDir)))
    \<and> (Path regist = [] \<and> ReadFile fs4 (filepath_Join [extractDir, ''registry.yaml'']) = Inl err
          \<and> ReadFile fs4 (filepath_Join [extractDir, ''registry.yml'']) = Inl err' \<longrightarrow>
          extractHTTPRegistryArchive env fs regist registryFilePath content =
            (Inl (RegistryFileNotFound [''registry.yaml'', ''registry.yml'']),
             RemoveAll fs4 tempDir))"
proof -
  note run = extractHTTPRegistryArchive_search [OF assms]
  have "ReadFile fs2 tempArchivePath = Inr content"
    using assms(5) by (rule WriteFile_ReadFile)
  with assms(6) have written: "ReadFile fs3 tempArchivePath = Inr content"
    by (rule MkdirAll_ReadFile)
  show ?thesis
    using written unfolding run searchPaths_of_eq
    by (simp add: Let_def)
qed

text \<open>The scenario, computed.\<close>

lemma cache_steps:
  "''/c/v1/.tmp'' = filepath_Join [filepath_Dir ''/c/v1/registry.yaml'', ''.tmp'']"
  "''/c/v1/.tmp/registry.tar.gz'' =
     filepath_Join [''/c/v1/.tmp'', ''registry.'' @ Format registry_http_archive]"
  "''/c/v1/.tmp/extract'' = filepath_Join [''/c/v1/.tmp'', ''extract'']"
  "MkdirAll fs_registry_cache ''/c/v1/.tmp'' = Inr fs_cache_tmp"
  "WriteFile fs_cache_tmp ''/c/v1/.tmp/registry.tar.gz'' ''packages: []'' = Inr fs_cache_archive"
  "MkdirAll fs_cache_archive ''/c/v1/.tmp/extract'' = Inr fs_cache_extract"
  by code_simp+

lemma cache_steps_path:
  "''/c/v1/.tmp/registry.tar.gz'' =
     filepath_Join [''/c/v1/.tmp'', ''registry.'' @ Format (registry_http_archive\<lparr>Path := ''conf/custom.yaml''\<rparr>)]"
  "Format (registry_http_archive\<lparr>Path := ''conf/custom.yaml''\<rparr>) = Format registry_http_archive"
  "Path (registry_http_archive\<lparr>Path := ''conf/custom.yaml''\<rparr>) = ''conf/custom.yaml''"
  "Path registry_http_archive = []"
  "Format registry_http_archive = ''tar.gz''"
  by code_simp+

lemma unpack_as_unpacked:
  "unpack_as [''registry.yml''] fs_cache_extract ''/c/v1/.tmp/registry.tar.gz'' ''tar.gz''
     ''/c/v1/.tmp/extract'' = Inr (unpacked [''registry.yml''])"
  "unpack_as [''registry.yml'', ''registry.yaml''] fs_cache_extract ''/c/v1/.tmp/registry.tar.gz''
     ''tar.gz'' ''/c/v1/.tmp/extract'' = Inr (unpacked [''registry.yml'', ''registry.yaml''])"
  "unpack_as [''reg.yml''] fs_cache_extract ''/c/v1/.tmp/registry.tar.gz'' ''tar.gz''
     ''/c/v1/.tmp/extract'' = Inr (unpacked [''reg.yml''])"
  "unpack_as [''registry.yaml'', ''conf/custom.yaml''] fs_cache_extract
     ''/c/v1/.tmp/registry.tar.gz'' ''tar.gz'' ''/c/v1/.tmp/extract''
     = Inr (unpacked [''registry.yaml'', ''conf/custom.yaml''])"
  "unpack_as [''registry.yaml'', ''custom.yaml''] fs_cache_extract
     ''/c/v1/.tmp/registry.tar.gz'' ''tar.gz'' ''/c/v1/.tmp/extract''
     = Inr (unpacked [''registry.yaml'', ''custom.yaml''])"
  by code_simp+

lemma unpacked_reads:
  "ReadFile (unpacked [''registry.yml'']) (filepath_Join [''/c/v1/.tmp/extract'', ''registry.yaml''])
     = Inl ENOENT"
  "ReadFile (unpacked [''registry.yml'']) (filepath_Join [''/c/v1/.tmp/extract'', ''registry.yml''])
     = Inr ''registry.yml: packages: []''"
  "ReadFile (unpacked [''registry.yml'', ''registry.yaml''])
     (filepath_Join [''/c/v1/.tmp/extract'', ''registry.yaml''])
     = Inr ''registry.yaml: packages: []''"
  "ReadFile (unpacked [''reg.yml'']) (filepath_Join [''/c/v1/.tmp/extract'', ''registry.yaml''])
     = Inl ENOENT"
  "ReadFile (unpacked [''reg.yml'']) (filepath_Join [''/c/v1/.tmp/extract'', ''registry.yml''])
     = Inl ENOENT"
  "ReadFile (unpacked [''registry.yaml'', ''conf/custom.yaml''])
     (filepath_Join [''/c/v1/.tmp/extract'', ''conf/custom.yaml''])
     = Inr ''conf/custom.yaml: packages: []''"
  "ReadFile (unpacked [''registry.yaml'', ''custom.yaml''])
     (filepath_Join [''/c/v1/.tmp/extract'', ''conf/custom.yaml'']) = Inl ENOENT"
  by code_simp+

lemma saved_results:
  "fst (saveHTTPRegistry (env_unpacking names) fs ''/c/v1/registry.yaml'' data) =
     (if isl (WriteFile fs ''/c/v1/registry.yaml'' data)
      then Inl (WriteRegistryFileFailed (projl (WriteFile fs ''/c/v1/registry.yaml'' data)))
      else Inr data)"
  by (simp add: saveHTTPRegistry_def isJSON_def env_unpacking_def split: sum.splits)

lemma isl_WriteFile:
  "isl (WriteFile fs p data) = isl (open_truncated fs p)"
  by (simp add: WriteFile_def split: sum.splits prod.splits)

lemma unpacked_opens:
  "isl (open_truncated (unpacked [''registry.yml'']) ''/c/v1/registry.yaml'') = False"
  "isl (open_truncated (unpacked [''registry.yml'', ''registry.yaml'']) ''/c/v1/registry.yaml'') = False"
  "isl (open_truncated (unpacked [''registry.yaml'', ''conf/custom.yaml'']) ''/c/v1/registry.yaml'') = False"
  by code_simp+

theorem archive_registry_search_witness:
  "MkdirAll fs_registry_cache ''/c/v1/.tmp'' = Inr fs_cache_tmp
   \<and> WriteFile fs_cache_tmp ''/c/v1/.tmp/registry.tar.gz'' ''packages: []'' = Inr fs_cache_archive
   \<and> MkdirAll fs_cache_archive ''/c/v1/.tmp/extract'' = Inr fs_cache_extract
   \<and> ReadFile fs_cache_extract ''/c/v1/.tmp/registry.tar.gz'' = Inr ''packages: []''
   \<and> fst (extractHTTPRegistryArchive (env_unpacking [''registry.yml'']) fs_registry_cache
            registry_http_archive ''/c/v1/registry.yaml'' ''packages: []'')
       = Inr ''registry.yml: packages: []''
   \<and> fst (extractHTTPRegistryArchive (env_unpacking [''registry.yml'', ''registry.yaml''])
            fs_registry_cache registry_http_archive ''/c/v1/registry.yaml'' ''packages: []'')
       = Inr ''registry.yaml: packages: []''
   \<and> fst (extractHTTPRegistryArchive (env_unpacking [''reg.yml'']) fs_registry_cache
            registry_http_archive ''/c/v1/registry.yaml'' ''packages: []'')
       = Inl (RegistryFileNotFound [''registry.yaml'', ''registry.yml''])
   \<and> fst (extractHTTPRegistryArchive (env_unpacking [''registry.yaml'', ''conf/custom.yaml''])
            fs_registry_cache (registry_http_archive\<lparr>Path := ''conf/custom.yaml''\<rparr>)
            ''/c/v1/registry.yaml'' ''packages: []'')
       = Inr ''conf/custom.yaml: packages: []''
   \<and> fst (extractHTTPRegistryArchive (env_unpacking [''registry.yaml'', ''custom.yaml''])
            fs_registry_cache (registry_http_archive\<lparr>Path := ''conf/custom.yaml''\<rparr>)
            ''/c/v1/registry.yaml'' ''packages: []'')
       = Inl (RegistryFileNotFound [''conf/custom.yaml''])"
proof -
  have u: "Unarchive (env_unpacking names) = unpack_as names" for names
    by (simp add: env_unpacking_def)
  note pre = cache_steps(1,2,3,4,5,6)
  note pre' = cache_steps(1) cache_steps_path(1) cache_steps(3,4,5,6)
  note f = cache_steps_path(2,3,4,5)
  note s1 = archive_registry_search [OF pre, of "env_unpacking [''registry.yml'']"
      "unpacked [''registry.yml'']" "''registry.yml: packages: []''" ENOENT ENOENT,
      unfolded u f, OF unpack_as_unpacked(1)]
  note s2 = archive_registry_search [OF pre, of "env_unpacking [''registry.yml'', ''registry.yaml'']"
      "unpacked [''registry.yml'', ''registry.yaml'']" "''registry.yaml: packages: []''" ENOENT ENOENT,
      unfolded u f, OF unpack_as_unpacked(2)]
  note s3 = archive_registry_search [OF pre, of "env_unpacking [''reg.yml'']"
      "unpacked [''reg.yml'']" "[]" ENOENT ENOENT,
      unfolded u f, OF unpack_as_unpacked(3)]
  note s4 = archive_registry_search [OF pre', of "env_unpacking [''registry.yaml'', ''conf/custom.yaml'']"
      "unpacked [''registry.yaml'', ''conf/custom.yaml'']" "''conf/custom.yaml: packages: []''"
      ENOENT ENOENT, unfolded u f, OF unpack_as_unpacked(4)]
  note s5 = archive_registry_search [OF pre', of "env_unpacking [''registry.yaml'', ''custom.yaml'']"
      "unpacked [''registry.yaml'', ''custom.yaml'']" "[]" ENOENT ENOENT,
      unfolded u f, OF unpack_as_unpacked(5)]
  show ?thesis
    using s1 s2 s3 s4 s5 cache_steps(4,5,6)
    by (simp add: unpacked_reads saved_results isl_WriteFile unpacked_opens case_prod_beta)
qed

section \<open>Properties of the exec controller\<close>

declare retry_loop.simps [simp del]

text \<open>One turn of the loop, for each way an attempt can end.\<close>

lemma retry_loop_retried:
  assumes "i < 10" "retried x ex i" "wait_result ex i = None"
  shows "retry_loop x ex i \<lparr>executions = i, waits = replicate i 10\<rparr>
       = retry_loop x ex (Suc i) \<lparr>executions = Suc i, waits = replicate (Suc i) 10\<rparr>"
proof (cases x)
  case True
  with assms show ?thesis
    by (subst retry_loop.simps)
       (auto simp: execCommand_def wait_def retried_def replicate_append_same)
next
  case False
  with assms obtain e where "Exec_result ex i = (- 1, Some e)" "ctx_Err ex i = None"
    by (cases "Exec_result ex i") (auto simp: retried_def not_started_def)
  with False assms show ?thesis
    by (subst retry_loop.simps)
       (simp add: execCommand_def wait_def replicate_append_same)
qed

lemma retry_loop_cancelled_in_wait:
  assumes "i < 10" "retried x ex i" "wait_result ex i = Some werr"
  shows "retry_loop x ex i \<lparr>executions = i, waits = replicate i 10\<rparr>
       = (Some werr, \<lparr>executions = Suc i, waits = replicate (Suc i) 10\<rparr>)"
proof (cases x)
  case True
  with assms show ?thesis
    by (subst retry_loop.simps)
       (auto simp: execCommand_def wait_def retried_def replicate_append_same)
next
  case False
  with assms obtain e where "Exec_result ex i = (- 1, Some e)" "ctx_Err ex i = None"
    by (cases "Exec_result ex i") (auto simp: retried_def not_started_def)
  with False assms show ?thesis
    by (subst retry_loop.simps)
       (simp add: execCommand_def wait_def replicate_append_same)
qed

lemma retry_loop_succeeded:
  assumes "i < 10" "succeeded x ex i"
  shows "retry_loop x ex i \<lparr>executions = i, waits = replicate i 10\<rparr>
       = (None, \<lparr>executions = Suc i, waits = replicate i 10\<rparr>)"
proof (cases x)
  case True
  with assms show ?thesis
    by (subst retry_loop.simps) (simp add: execCommand_def succeeded_def)
next
  case False
  with assms obtain c where "Exec_result ex i = (c, None)"
    by (cases "Exec_result ex i") (auto simp: succeeded_def)
  with False assms show ?thesis
    by (subst retry_loop.simps) (simp add: execCommand_def)
qed

lemma retry_loop_failed:
  assumes "i < 10" "Exec_result ex i = (c, Some e)" "c \<noteq> - 1 \<or> ctx_Err ex i \<noteq> None"
  shows "retry_loop False ex i \<lparr>executions = i, waits = replicate i 10\<rparr>
       = (Some (ExitCodeError e c), \<lparr>executions = Suc i, waits = replicate i 10\<rparr>)"
  using assms
  by (subst retry_loop.simps) (auto simp: execCommand_def)

lemma retry_loop_exhausted:
  "retry_loop x ex 10 l = (Some errFailedToStartProcess, l)"
  by (subst retry_loop.simps) simp

lemma retry_loop_skip:
  assumes "\<forall>j. i \<le> j \<and> j < k \<longrightarrow> retried x ex j \<and> wait_result ex j = None" "i \<le> k" "k \<le> 10"
  shows "retry_loop x ex i \<lparr>executions = i, waits = replicate i 10\<rparr>
       = retry_loop x ex k \<lparr>executions = k, waits = replicate k 10\<rparr>"
  using assms
proof (induction "k - i" arbitrary: i)
  case 0
  then show ?case by simp
next
  case (Suc n)
  then have "i < 10" "retried x ex i" "wait_result ex i = None" by auto
  then have "retry_loop x ex i \<lparr>executions = i, waits = replicate i 10\<rparr>
      = retry_loop x ex (Suc i) \<lparr>executions = Suc i, waits = replicate (Suc i) 10\<rparr>"
    by (rule retry_loop_retried)
  moreover have "retry_loop x ex (Suc i) \<lparr>executions = Suc i, waits = replicate (Suc i) 10\<rparr>
      = retry_loop x ex k \<lparr>executions = k, waits = replicate k 10\<rparr>"
    using Suc.prems Suc.hyps(2) by (intro Suc.hyps(1)) auto
  ultimately show ?case by simp
qed

lemma retry_from_start:
  assumes "\<forall>j<k. retried x ex j \<and> wait_result ex j = None" "k \<le> 10"
  shows "execCommandWithRetry x ex
       = retry_loop x ex k \<lparr>executions = k, waits = replicate k 10\<rparr>"
  unfolding execCommandWithRetry_def
  using retry_loop_skip [of 0 k x ex] assms by simp

text \<open>
  Claim C3, as stated, has every attempt that reports exit code \<open>-1\<close> with the context
  not cancelled retried, and the error \<open>it failed to start the process\<close> after the tenth.
  The context can be cancelled after \<open>execCommand\<close> has read \<open>ctx.Err()\<close>, during the wait
  that follows: then \<open>wait\<close> returns the context's error and the controller returns it as
  it is, with no further attempt, not wrapped with an exit code. With ten attempts that
  did not start the process and the context cancelled during the tenth wait the result
  is \<open>context canceled\<close>; with the context cancelled during the first wait the
  executor runs once.
\<close>

theorem exec_retry_cancelled_wait_counterexample:
  "list_all (not_started executor_cancelled_in_last_wait) [0, 1, 2, 3, 4, 5, 6, 7, 8, 9]
   \<and> execCommandWithRetry False executor_cancelled_in_last_wait
     = (Some (ContextError ''context canceled''),
        \<lparr>executions = 10, waits = replicate 10 10\<rparr>)
   \<and> not_started executor_cancelled_in_wait 0
   \<and> execCommandWithRetry False executor_cancelled_in_wait
     = (Some (ContextError ''context canceled''),
        \<lparr>executions = 1, waits = [10]\<rparr>)"
proof -
  have "execCommandWithRetry False executor_cancelled_in_last_wait
      = retry_loop False executor_cancelled_in_last_wait 9
          \<lparr>executions = 9, waits = replicate 9 10\<rparr>"
    by (rule retry_from_start)
       (simp_all add: retried_def not_started_def executor_cancelled_in_last_wait_def)
  also have "\<dots> = (Some (ContextError ''context canceled''),
        \<lparr>executions = Suc 9, waits = replicate (Suc 9) 10\<rparr>)"
    by (rule retry_loop_cancelled_in_wait)
       (simp_all add: retried_def not_started_def executor_cancelled_in_last_wait_def)
  finally have a: "execCommandWithRetry False executor_cancelled_in_last_wait
     = (Some (ContextError ''context canceled''),
        \<lparr>executions = 10, waits = replicate 10 10\<rparr>)"
    by (simp add: eval_nat_numeral)
  have "execCommandWithRetry False executor_cancelled_in_wait
      = (Some (ContextError ''context canceled''),
        \<lparr>executions = Suc 0, waits = replicate (Suc 0) 10\<rparr>)"
    unfolding execCommandWithRetry_def
    using retry_loop_cancelled_in_wait [of 0 False executor_cancelled_in_wait]
    by (simp add: retried_def not_started_def executor_cancelled_in_wait_def)
  then have b: "execCommandWithRetry False executor_cancelled_in_wait
     = (Some (ContextError ''context canceled''), \<lparr>executions = 1, waits = [10]\<rparr>)"
    by simp
  show ?thesis
    using a b
    by (simp add: not_started_def executor_cancelled_in_last_wait_def
          executor_cancelled_in_wait_def)
qed

text \<open>
  Claim C3, amended. Attempts are numbered from 0. Without the experimental mode,
  attempt \<open>j\<close> is retried when \<open>Executor.Exec\<close> reports an error with exit code \<open>-1\<close> and
  \<open>ctx.Err()\<close> is \<open>nil\<close> right after it; in the experimental mode, when \<open>ExecXSys\<close> fails
  at all. A retried attempt is followed by a wait of 10 ms. After \<open>k < 10\<close> retried
  attempts whose waits ran to their end: a successful attempt returns no error; without
  the experimental mode an attempt failing with another exit code, or with the context
  cancelled, returns its error wrapped with that exit code, at once, with no further
  attempt and no wait; a retried attempt whose wait is cut short by the context returns
  the context's error as it is, with no further attempt. When all 10 attempts are retried
  and all 10 waits run to their end, the executor has run 10 times and the error is
  \<open>it failed to start the process\<close>.
\<close>

theorem exec_retry:
  "exec_Error errFailedToStartProcess = ''it failed to start the process''
   \<and> (k < 10 \<and> (\<forall>j<k. retried x ex j \<and> wait_result ex j = None) \<and> succeeded x ex k \<longrightarrow>
        execCommandWithRetry x ex
          = (None, \<lparr>executions = Suc k, waits = replicate k 10\<rparr>))
   \<and> (k < 10 \<and> (\<forall>j<k. not_started ex j \<and> wait_result ex j = None)
        \<and> Exec_result ex k = (c, Some e) \<and> (c \<noteq> - 1 \<or> ctx_Err ex k \<noteq> None) \<longrightarrow>
        execCommandWithRetry False ex
          = (Some (ExitCodeError e c), \<lparr>executions = Suc k, waits = replicate k 10\<rparr>))
   \<and> (k < 10 \<and> (\<forall>j<k. retried x ex j \<and> wait_result ex j = None)
        \<and> retried x ex k \<and> wait_result ex k = Some werr \<longrightarrow>
        execCommandWithRetry x ex
          = (Some werr, \<lparr>executions = Suc k, waits = replicate (Suc k) 10\<rparr>))
   \<and> ((\<forall>j<10. retried x ex j \<and> wait_result ex j = None) \<longrightarrow>
        execCommandWithRetry x ex
          = (Some errFailedToStartProcess, \<lparr>executions = 10, waits = replicate 10 10\<rparr>))"
proof (intro conjI impI)
  show "exec_Error errFailedToStartProcess = ''it failed to start the process''"
    by simp
next
  assume a: "k < 10 \<and> (\<forall>j<k. retried x ex j \<and> wait_result ex j = None) \<and> succeeded x ex k"
  then have "execCommandWithRetry x ex
      = retry_loop x ex k \<lparr>executions = k, waits = replicate k 10\<rparr>"
    by (intro retry_from_start) auto
  with a show "execCommandWithRetry x ex
      = (None, \<lparr>executions = Suc k, waits = replicate k 10\<rparr>)"
    by (simp add: retry_loop_succeeded)
next
  assume a: "k < 10 \<and> (\<forall>j<k. not_started ex j \<and> wait_result ex j = None)
        \<and> Exec_result ex k = (c, Some e) \<and> (c \<noteq> - 1 \<or> ctx_Err ex k \<noteq> None)"
  then have "execCommandWithRetry False ex
      = retry_loop False ex k \<lparr>executions = k, waits = replicate k 10\<rparr>"
    by (intro retry_from_start) (auto simp: retried_def)
  with a show "execCommandWithRetry False ex
      = (Some (ExitCodeError e c), \<lparr>executions = Suc k, waits = replicate k 10\<rparr>)"
    by (simp add: retry_loop_failed)
next
  assume a: "k < 10 \<and> (\<forall>j<k. retried x ex j \<and> wait_result ex j = None)
        \<and> retried x ex k \<and> wait_result ex k = Some werr"
  then have "execCommandWithRetry x ex
      = retry_loop x ex k \<lparr>executions = k, waits = replicate k 10\<rparr>"
    by (intro retry_from_start) auto
  with a show "execCommandWithRetry x ex
      = (Some werr, \<lparr>executions = Suc k, waits = replicate (Suc k) 10\<rparr>)"
    by (simp add: retry_loop_cancelled_in_wait)
next
  assume a: "\<forall>j<10. retried x ex j \<and> wait_result ex j = None"
  then have "execCommandWithRetry x ex
      = retry_loop x ex 10 \<lparr>executions = 10, waits = replicate 10 10\<rparr>"
    by (intro retry_from_start) auto
  then show "execCommandWithRetry x ex
      = (Some errFailedToStartProcess, \<lparr>executions = 10, waits = replicate 10 10\<rparr>)"
    by (simp add: retry_loop_exhausted)
qed

lemmas executor_defs =
  executor_starts_third_def executor_exit_2_def executor_cancelled_def
  executor_never_starts_def executor_cancelled_in_wait_def executor_cancelled_in_last_wait_def
  executor_execve_fails_def

theorem exec_retry_witness:
  "execCommandWithRetry False executor_starts_third
     = (None, \<lparr>executions = Suc 2, waits = replicate 2 10\<rparr>)
   \<and> execCommandWithRetry False executor_exit_2
     = (Some (ExitCodeError (ExecutorError ''exit status 2'') 2),
        \<lparr>executions = Suc 0, waits = replicate 0 10\<rparr>)
   \<and> execCommandWithRetry False executor_cancelled
     = (Some (ExitCodeError (ExecutorError ''signal: killed'') (- 1)),
        \<lparr>executions = Suc 0, waits = replicate 0 10\<rparr>)
   \<and> execCommandWithRetry False executor_cancelled_in_wait
     = (Some (ContextError ''context canceled''),
        \<lparr>executions = Suc 0, waits = replicate (Suc 0) 10\<rparr>)
   \<and> execCommandWithRetry False executor_never_starts
     = (Some errFailedToStartProcess, \<lparr>executions = 10, waits = replicate 10 10\<rparr>)
   \<and> execCommandWithRetry True executor_never_starts
     = (None, \<lparr>executions = Suc 0, waits = replicate 0 10\<rparr>)
   \<and> execCommandWithRetry True executor_execve_fails
     = (Some errFailedToStartProcess, \<lparr>executions = 10, waits = replicate 10 10\<rparr>)"
  using exec_retry [where ex = executor_starts_third and k = 2 and x = False]
    exec_retry [where ex = executor_exit_2 and k = 0 and c = 2 and x = False
      and e = "ExecutorError ''exit status 2''"]
    exec_retry [where ex = executor_cancelled and k = 0 and c = "- 1" and x = False
      and e = "ExecutorError ''signal: killed''"]
    exec_retry [where ex = executor_cancelled_in_wait and k = 0 and x = False
      and werr = "ContextError ''context canceled''"]
    exec_retry [where ex = executor_never_starts and k = 0 and x = False]
    exec_retry [where ex = executor_never_starts and k = 0 and x = True]
    exec_retry [where ex = executor_execve_fails and k = 0 and x = True]
  by (simp add: executor_defs not_started_def retried_def succeeded_def)

end
